theory Spec2Isabelle
  imports Main "HOL-Library.AList" "HOL-Library.Multiset"
begin

section \<open>Python values and exceptions\<close>

text \<open>
  The data that \<open>json.load\<close> hands to \<open>alarms_parser.py\<close>: \<open>None\<close>, booleans, integers,
  text, lists and dicts with text keys. A dict is an association list and a lookup reads
  the first binding of the key. Text is a \<open>string\<close>; a character stands for the code
  point of the same number, so the model covers the code points below 256. Floating
  point numbers are left out.
\<close>

datatype pyval =
    PNone
  | PBool bool
  | PInt int
  | PStr string
  | PList "pyval list"
  | PDict "(string \<times> pyval) list"

text \<open>
  Every \<open>assert\<close> of the source raises the same \<open>AssertionError\<close>; the model records
  which one failed. The text of the message is left out, but not its making: where
  \<open>format\<close> raises, that exception is the result (see \<open>py_assert\<close>).
\<close>

datatype assertion =
    CauseInvalid
  | DetailsLength
  | DescriptionLength
  | CauseLength
  | EffectLength
  | ActionLength
  | ExtendedDetailsLength
  | ExtendedDescriptionLength
  | SeverityInvalid
  | MissingCleared
  | MissingNonCleared

datatype error =
    KeyError string
  | TypeError
  | AttributeError
  | UnicodeEncodeError
  | AssertionError assertion

text \<open>Sequencing of statements that may raise: the first exception ends the run.\<close>

definition ebind :: "error + 'a \<Rightarrow> ('a \<Rightarrow> error + 'b) \<Rightarrow> error + 'b" where
  "ebind m f = (case m of Inl e \<Rightarrow> Inl e | Inr x \<Rightarrow> f x)"

text \<open>\<open>v[k]\<close> for a text key \<open>k\<close>: only a dict can be subscripted by text.\<close>

fun getitem :: "pyval \<Rightarrow> string \<Rightarrow> error + pyval" where
  "getitem (PDict kvs) k = (case map_of kvs k of None \<Rightarrow> Inl (KeyError k) | Some v \<Rightarrow> Inr v)"
| "getitem v k = Inl TypeError"

text \<open>\<open>len(v)\<close>.\<close>

fun py_len :: "pyval \<Rightarrow> error + nat" where
  "py_len (PStr s) = Inr (length s)"
| "py_len (PList xs) = Inr (length xs)"
| "py_len (PDict kvs) = Inr (length (remdups (map fst kvs)))"
| "py_len v = Inl TypeError"

text \<open>\<open>for x in v\<close>: the elements of a list, the characters of a text, the keys of a dict.\<close>

fun py_iter :: "pyval \<Rightarrow> error + pyval list" where
  "py_iter (PList xs) = Inr xs"
| "py_iter (PStr s) = Inr (map (\<lambda>c. PStr [c]) s)"
| "py_iter (PDict kvs) = Inr (map PStr (remdups (map fst kvs)))"
| "py_iter v = Inl TypeError"

text \<open>
  \<open>unicode.lower()\<close> and \<open>unicode.upper()\<close> on the code points below 256: the letters
  A to Z and the capital letters of Latin-1 (192 to 222 but the multiplication sign 215)
  are 32 below their small letters. The capitals of the micro sign (181) and of the
  y with diaeresis (255) lie above 255; \<open>upper_char\<close> leaves these two alone.
\<close>

definition lower_char :: "char \<Rightarrow> char" where
  "lower_char c =
     (let n = (of_char c :: nat)
      in if (65 \<le> n \<and> n \<le> 90) \<or> (192 \<le> n \<and> n \<le> 222 \<and> n \<noteq> 215)
         then char_of (n + 32) else c)"

definition upper_char :: "char \<Rightarrow> char" where
  "upper_char c =
     (let n = (of_char c :: nat)
      in if (97 \<le> n \<and> n \<le> 122) \<or> (224 \<le> n \<and> n \<le> 254 \<and> n \<noteq> 247)
         then char_of (n - 32) else c)"

fun lower :: "pyval \<Rightarrow> error + string" where
  "lower (PStr s) = Inr (map lower_char s)"
| "lower v = Inl AttributeError"

fun upper :: "pyval \<Rightarrow> error + string" where
  "upper (PStr s) = Inr (map upper_char s)"
| "upper v = Inl AttributeError"

text \<open>
  Python 2 turns text into a byte string with the ASCII codec, which raises
  \<open>UnicodeEncodeError\<close> on a code point above 127.
\<close>

definition is_ascii :: "string \<Rightarrow> bool" where
  "is_ascii s = list_all (\<lambda>c. (of_char c :: nat) < 128) s"

definition encode_ascii :: "string \<Rightarrow> error + string" where
  "encode_ascii s = (if is_ascii s then Inr s else Inl UnicodeEncodeError)"

text \<open>Decimal numerals, as \<open>str\<close> prints an integer.\<close>

definition digit_char :: "nat \<Rightarrow> char" where
  "digit_char d = char_of (48 + d)"

fun str_nat :: "nat \<Rightarrow> string" where
  "str_nat n = (if n < 10 then [digit_char n] else str_nat (n div 10) @ [digit_char (n mod 10)])"

definition str_int :: "int \<Rightarrow> string" where
  "str_int i = (if i < 0 then CHR ''-'' # str_nat (nat (- i)) else str_nat (nat i))"

text \<open>
  \<open>repr\<close> of a text: the prefix \<open>u\<close>, single quotes unless the text holds a single and
  no double quote (\<open>CHR 0x27\<close> and \<open>CHR 0x22\<close>), and escapes for the quote, the
  backslash (\<open>CHR 0x5C\<close>), tab, newline, carriage return and every code point outside
  32 to 126.
\<close>

definition hex_digit :: "nat \<Rightarrow> char" where
  "hex_digit d = (if d < 10 then char_of (48 + d) else char_of (87 + d))"

definition repr_char :: "char \<Rightarrow> char \<Rightarrow> string" where
  "repr_char quote c =
     (let n = (of_char c :: nat)
      in if c = quote \<or> c = CHR 0x5C then [CHR 0x5C, c]
         else if c = CHR 0x09 then [CHR 0x5C, CHR ''t'']
         else if c = CHR 0x0A then [CHR 0x5C, CHR ''n'']
         else if c = CHR 0x0D then [CHR 0x5C, CHR ''r'']
         else if n < 32 \<or> 127 \<le> n
           then [CHR 0x5C, CHR ''x'', hex_digit (n div 16), hex_digit (n mod 16)]
         else [c])"

definition repr_unicode :: "string \<Rightarrow> string" where
  "repr_unicode s =
     (let quote = (if CHR 0x27 \<in> set s \<and> CHR 0x22 \<notin> set s then CHR 0x22 else CHR 0x27)
      in CHR ''u'' # quote # concat (map (repr_char quote) s) @ [quote])"

section \<open>What the code takes from outside\<close>

text \<open>
  The module \<open>alarm_severities\<close> with the six ITU severity codes is imported by
  \<open>alarms_parser.py\<close> and is not among the sources; the codes are parameters. So are
  the parts of the Python run time that the code relies on without fixing them:
  \<open>sys.maxint\<close> (a larger integer is a \<open>long\<close>, whose \<open>repr\<close> ends in \<open>L\<close>), the
  \<open>repr\<close> of a list or dict, the order in which a dict with integer keys is iterated
  (a function of the keys in the order of their first insertion), and the line that
  the dialect of the \<open>csv\<close> module makes of the fields of a row, with its delimiter,
  its quotes and its line terminator.
\<close>

record py_env =
  CLEARED :: int
  INDETERMINATE :: int
  CRITICAL :: int
  MAJOR :: int
  MINOR :: int
  WARNING :: int
  maxint :: int
  repr_container :: "pyval \<Rightarrow> string"
  dict_order :: "int list \<Rightarrow> int list"
  csv_join :: "string list \<Rightarrow> string"

text \<open>\<open>str(v)\<close> and \<open>repr(v)\<close>.\<close>

fun py_str :: "py_env \<Rightarrow> pyval \<Rightarrow> error + string" where
  "py_str env PNone = Inr ''None''"
| "py_str env (PBool b) = Inr (if b then ''True'' else ''False'')"
| "py_str env (PInt i) = Inr (str_int i)"
| "py_str env (PStr s) = encode_ascii s"
| "py_str env v = Inr (repr_container env v)"

fun py_repr :: "py_env \<Rightarrow> pyval \<Rightarrow> string" where
  "py_repr env PNone = ''None''"
| "py_repr env (PBool b) = (if b then ''True'' else ''False'')"
| "py_repr env (PInt i) =
     (if - maxint env - 1 \<le> i \<and> i \<le> maxint env then str_int i else str_int i @ ''L'')"
| "py_repr env (PStr s) = repr_unicode s"
| "py_repr env v = repr_container env v"

text \<open>
  \<open>assert cond, '...{}...'.format(args)\<close>. The message is built only when the
  condition fails. The template is a byte string, so \<open>format\<close> puts in the \<open>str\<close> of
  every argument, and an argument that has none makes \<open>format\<close> raise in place of the
  \<open>AssertionError\<close>.
\<close>

fun format_args :: "py_env \<Rightarrow> pyval list \<Rightarrow> error + unit" where
  "format_args env [] = Inr ()"
| "format_args env (v # vs) = ebind (py_str env v) (\<lambda>_. format_args env vs)"

definition raise_assertion :: "py_env \<Rightarrow> pyval list \<Rightarrow> assertion \<Rightarrow> error + 'a" where
  "raise_assertion env args a = ebind (format_args env args) (\<lambda>_. Inl (AssertionError a))"

definition py_assert :: "py_env \<Rightarrow> bool \<Rightarrow> pyval list \<Rightarrow> assertion \<Rightarrow> error + unit" where
  "py_assert env cond args a = (if cond then Inr () else raise_assertion env args a)"




text \<open>\<open>str\<close> of a tuple, with the comma that marks a tuple of one element.\<close>

fun join_comma :: "string list \<Rightarrow> string" where
  "join_comma [] = []"
| "join_comma [x] = x"
| "join_comma (x # y # ys) = x @ '', '' @ join_comma (y # ys)"

definition str_tuple :: "py_env \<Rightarrow> pyval list \<Rightarrow> string" where
  "str_tuple env xs =
     (case xs of
        [x] \<Rightarrow> ''('' @ py_repr env x @ '',)''
      | _ \<Rightarrow> ''('' @ join_comma (map (py_repr env) xs) @ '')'')"

text \<open>The keys and the values of a dict with integer keys, in its iteration order.\<close>

definition dict_keys :: "py_env \<Rightarrow> (int \<times> 'v) list \<Rightarrow> int list" where
  "dict_keys env d = dict_order env (map fst d)"


section \<open>The severity and cause vocabularies\<close>

definition itu_severities :: "py_env \<Rightarrow> (string \<times> int) list" where
  "itu_severities env =
     [(''cleared'', CLEARED env),
      (''indeterminate'', INDETERMINATE env),
      (''critical'', CRITICAL env),
      (''major'', MAJOR env),
      (''minor'', MINOR env),
      (''warning'', WARNING env)]"

definition alarm_model_state :: "(string \<times> int) list" where
  "alarm_model_state =
     [(''cleared'', 1),
      (''indeterminate'', 2),
      (''critical'', 6),
      (''major'', 5),
      (''minor'', 4),
      (''warning'', 3)]"

definition full_alarm_oid :: "string \<Rightarrow> string" where
  "full_alarm_oid oid_fragment = ''1.3.6.1.2.1.118.1.1.2.1.3.0.'' @ oid_fragment"

definition valid_causes :: "string list" where
  "valid_causes = [''software_error'', ''database_inconsistency'', ''underlying_resource_unavailable'']"

section \<open>AlarmLevel\<close>

text \<open>
  The fields of an \<open>AlarmLevel\<close> object. The reference \<open>_parent\<close> is not kept: the
  constructor reads the parent's name and index through it, which are arguments here,
  and the renderers do not use it.
\<close>

record alarm_level =
  level_details :: pyval
  level_description :: pyval
  level_cause :: pyval
  level_effect :: pyval
  level_action :: pyval
  level_itu_severity :: int
  level_oid :: string
  level_severity_string :: pyval

text \<open>
  \<open>assert len(level[key]) < bound, '...{}'.format(name)\<close>, then the value of
  \<open>level[key]\<close>.
\<close>

definition checked_len ::
  "py_env \<Rightarrow> pyval \<Rightarrow> pyval \<Rightarrow> string \<Rightarrow> nat \<Rightarrow> assertion \<Rightarrow> error + pyval" where
  "checked_len env name level key bound a =
     ebind (getitem level key) (\<lambda>v.
     ebind (py_len v) (\<lambda>n.
     ebind (py_assert env (n < bound) [name] a) (\<lambda>_.
     Inr v)))"

text \<open>
  The same inside \<open>try: ... except KeyError: pass\<close>: a missing key leaves the field as it
  was, any other exception goes on.
\<close>

definition optional_len ::
  "py_env \<Rightarrow> pyval \<Rightarrow> pyval \<Rightarrow> string \<Rightarrow> nat \<Rightarrow> assertion \<Rightarrow> pyval \<Rightarrow> error + pyval" where
  "optional_len env name level key bound a current =
     (case checked_len env name level key bound a of
        Inl e \<Rightarrow> (case e of KeyError k \<Rightarrow> Inr current | _ \<Rightarrow> Inl e)
      | Inr v \<Rightarrow> Inr v)"

definition AlarmLevel :: "py_env \<Rightarrow> pyval \<Rightarrow> pyval \<Rightarrow> pyval \<Rightarrow> error + alarm_level" where
  "AlarmLevel env name parent_index level =
     ebind (checked_len env name level ''details'' 256 DetailsLength) (\<lambda>details.
     ebind (checked_len env name level ''description'' 256 DescriptionLength) (\<lambda>description.
     ebind (checked_len env name level ''cause'' 4096 CauseLength) (\<lambda>cause.
     ebind (checked_len env name level ''effect'' 4096 EffectLength) (\<lambda>effect.
     ebind (checked_len env name level ''action'' 4096 ActionLength) (\<lambda>action.
     ebind (optional_len env name level ''extended_details'' 4096 ExtendedDetailsLength details)
       (\<lambda>details'.
     ebind (optional_len env name level ''extended_description'' 4096 ExtendedDescriptionLength
              description) (\<lambda>description'.
     ebind (getitem level ''severity'') (\<lambda>severity_string.
     ebind (lower severity_string) (\<lambda>severity.
     ebind (py_assert env (severity \<in> set (map fst (itu_severities env))) [severity_string, name]
              SeverityInvalid) (\<lambda>_.
     case map_of (itu_severities env) severity of
       None \<Rightarrow> Inl (KeyError severity)
     | Some itu \<Rightarrow>
         ebind (py_str env parent_index) (\<lambda>index_str.
         case map_of alarm_model_state severity of
           None \<Rightarrow> Inl (KeyError severity)
         | Some state \<Rightarrow>
             Inr \<lparr>level_details = details',
                  level_description = description',
                  level_cause = cause,
                  level_effect = effect,
                  level_action = action,
                  level_itu_severity = itu,
                  level_oid = index_str @ ''.'' @ str_int state,
                  level_severity_string = severity_string\<rparr>)))))))))))"

section \<open>Alarm\<close>

record alarm =
  alarm_name :: pyval
  alarm_index :: pyval
  alarm_cause :: pyval
  alarm_levels :: "(int \<times> alarm_level) list"

text \<open>
  The loop over \<open>alarm['levels']\<close>, on the state \<open>_levels\<close>, \<open>found_cleared\<close>,
  \<open>found_non_cleared\<close>. \<open>_levels[k] = v\<close> is \<open>AList.update\<close>: a key already there keeps its
  place and takes the new value, a new key goes to the end.
\<close>

fun levels_loop ::
  "py_env \<Rightarrow> pyval \<Rightarrow> pyval \<Rightarrow> pyval list \<Rightarrow> (int \<times> alarm_level) list \<times> bool \<times> bool
     \<Rightarrow> error + ((int \<times> alarm_level) list \<times> bool \<times> bool)" where
  "levels_loop env name index [] st = Inr st"
| "levels_loop env name index (level # rest) (levels, found_cleared, found_non_cleared) =
     ebind (AlarmLevel env name index level) (\<lambda>level_obj.
     levels_loop env name index rest
       (AList.update (level_itu_severity level_obj) level_obj levels,
        (if level_itu_severity level_obj = CLEARED env then True else found_cleared),
        (if level_itu_severity level_obj = CLEARED env then found_non_cleared else True)))"

text \<open>
  \<open>Alarm.__init__\<close>. Its handler of \<open>KeyError\<close> writes a line to the standard output and
  raises the exception again, so that the result is that of the body; the line written
  is left out.
\<close>

definition Alarm :: "py_env \<Rightarrow> pyval \<Rightarrow> error + alarm" where
  "Alarm env alarm =
     ebind (getitem alarm ''name'') (\<lambda>name.
     ebind (getitem alarm ''index'') (\<lambda>index.
     ebind (getitem alarm ''cause'') (\<lambda>cause.
     ebind (lower cause) (\<lambda>cause_lower.
     ebind (py_assert env (cause_lower \<in> set valid_causes) [cause, name] CauseInvalid) (\<lambda>_.
     ebind (getitem alarm ''levels'') (\<lambda>levels_value.
     ebind (py_iter levels_value) (\<lambda>levels.
     ebind (levels_loop env name index levels ([], False, False)) (\<lambda>st.
     case st of (levels_dict, found_cleared, found_non_cleared) \<Rightarrow>
       ebind (py_assert env found_cleared [name] MissingCleared) (\<lambda>_.
       ebind (py_assert env found_non_cleared [name] MissingNonCleared) (\<lambda>_.
       Inr \<lparr>alarm_name = name,
            alarm_index = index,
            alarm_cause = cause,
            alarm_levels = levels_dict\<rparr>))))))))))"

section \<open>Loading and rendering\<close>

text \<open>
  \<open>parse_alarms_file\<close> after \<open>json.load\<close>: its argument here is the loaded document.
\<close>

fun alarm_list_loop :: "py_env \<Rightarrow> pyval list \<Rightarrow> alarm list \<Rightarrow> error + alarm list" where
  "alarm_list_loop env [] alarm_list = Inr alarm_list"
| "alarm_list_loop env (alarm # rest) alarm_list =
     ebind (Alarm env alarm) (\<lambda>a. alarm_list_loop env rest (alarm_list @ [a]))"

definition parse_alarms_file :: "py_env \<Rightarrow> pyval \<Rightarrow> error + alarm list" where
  "parse_alarms_file env alarms_data =
     ebind (getitem alarms_data ''alarms'') (\<lambda>alarms_value.
     ebind (py_iter alarms_value) (\<lambda>alarms.
     alarm_list_loop env alarms []))"

text \<open>
  \<open>'{} = {}\n'.format(alarm._name.upper(), tuple(handle_data))\<close>: the name is text and
  the template a byte string, so the name goes through the ASCII codec.
\<close>

definition render_alarm :: "py_env \<Rightarrow> alarm \<Rightarrow> error + string" where
  "render_alarm env alarm =
     (let handle_data = alarm_index alarm # map PInt (dict_keys env (alarm_levels alarm))
      in ebind (upper (alarm_name alarm)) (\<lambda>name_upper.
         ebind (encode_ascii name_upper) (\<lambda>name_str.
         Inr (name_str @ '' = '' @ str_tuple env handle_data @ [CHR 0x0A]))))"


definition csv_values :: "alarm \<Rightarrow> alarm_level \<Rightarrow> pyval list" where
  "csv_values alarm alarm_level =
     [PStr (level_oid alarm_level),
      PInt (level_itu_severity alarm_level),
      alarm_name alarm,
      alarm_cause alarm,
      level_severity_string alarm_level,
      level_description alarm_level,
      level_details alarm_level,
      level_cause alarm_level,
      level_effect alarm_level,
      level_action alarm_level]"





section \<open>Notions for stating the properties\<close>

text \<open>The severity of a level record, in lower case, as \<open>AlarmLevel\<close> reads it.\<close>

definition level_severity :: "pyval \<Rightarrow> error + string" where
  "level_severity level = ebind (getitem level ''severity'') lower"

text \<open>The six ITU codes of \<open>alarm_severities\<close> differ from one another.\<close>

definition codes_distinct :: "py_env \<Rightarrow> bool" where
  "codes_distinct env =
     distinct [CLEARED env, INDETERMINATE env, CRITICAL env, MAJOR env, MINOR env, WARNING env]"

text \<open>The dict that the statements \<open>_levels[level_obj._itu_severity] = level_obj\<close> build.\<close>

definition store_levels :: "alarm_level list \<Rightarrow> (int \<times> alarm_level) list" where
  "store_levels objs = fold (\<lambda>l. AList.update (level_itu_severity l) l) objs []"

text \<open>\<open>len(level[key])\<close>, as the length checks of \<open>AlarmLevel\<close> compute it.\<close>

definition field_len :: "pyval \<Rightarrow> string \<Rightarrow> error + nat" where
  "field_len level key = ebind (getitem level key) py_len"

text \<open>
  The last statements of \<open>AlarmLevel.__init__\<close>, from \<open>severity = level['severity'].lower()\<close>
  on, with the text fields read before them.
\<close>

definition severity_part ::
  "py_env \<Rightarrow> pyval \<Rightarrow> pyval \<Rightarrow> pyval \<Rightarrow> pyval \<Rightarrow> pyval \<Rightarrow> pyval \<Rightarrow> pyval \<Rightarrow> pyval
     \<Rightarrow> error + alarm_level" where
  "severity_part env name parent_index level details description cause effect action =
     ebind (getitem level ''severity'') (\<lambda>severity_string.
     ebind (lower severity_string) (\<lambda>severity.
     ebind (py_assert env (severity \<in> set (map fst (itu_severities env))) [severity_string, name]
              SeverityInvalid) (\<lambda>_.
     case map_of (itu_severities env) severity of
       None \<Rightarrow> Inl (KeyError severity)
     | Some itu \<Rightarrow>
         ebind (py_str env parent_index) (\<lambda>index_str.
         case map_of alarm_model_state severity of
           None \<Rightarrow> Inl (KeyError severity)
         | Some state \<Rightarrow>
             Inr \<lparr>level_details = details,
                  level_description = description,
                  level_cause = cause,
                  level_effect = effect,
                  level_action = action,
                  level_itu_severity = itu,
                  level_oid = index_str @ ''.'' @ str_int state,
                  level_severity_string = severity_string\<rparr>))))"


definition too_long :: "pyval \<Rightarrow> string \<Rightarrow> nat \<Rightarrow> bool" where
  "too_long level key bound \<longleftrightarrow> (\<exists>n. field_len level key = Inr n \<and> bound \<le> n)"


text \<open>
  What the code may expect of the iteration of a dict: every key once. Nothing is said
  of the order.
\<close>

definition iteration_ok :: "py_env \<Rightarrow> bool" where
  "iteration_ok env \<longleftrightarrow>
     (\<forall>ks. distinct ks \<longrightarrow> distinct (dict_order env ks) \<and> set (dict_order env ks) = set ks)"


section \<open>Sample data\<close>

text \<open>
  One instance of the parameters, for evaluating the code on concrete records: the codes
  that ITU-T X.733 gives the six severities, the largest 64-bit integer, a \<open>repr\<close> of
  lists and dicts that goes through a dict in the order of its association list, a dict
  iteration in the order of insertion, and a dialect in the manner of \<open>csv.writer\<close> with
  the line terminator \<open>\n\<close>: fields joined by commas, a field that holds a comma, a
  double quote or a newline put between double quotes with its own quotes doubled.
\<close>

fun sample_repr :: "int \<Rightarrow> pyval \<Rightarrow> string" where
  "sample_repr m PNone = ''None''"
| "sample_repr m (PBool b) = (if b then ''True'' else ''False'')"
| "sample_repr m (PInt i) = (if - m - 1 \<le> i \<and> i \<le> m then str_int i else str_int i @ ''L'')"
| "sample_repr m (PStr s) = repr_unicode s"
| "sample_repr m (PList xs) = ''['' @ join_comma (map (sample_repr m) xs) @ '']''"
| "sample_repr m (PDict kvs) =
     ''{'' @ join_comma (map (\<lambda>kv. repr_unicode (fst kv) @ '': '' @ sample_repr m (snd kv)) kvs)
       @ ''}''"

definition sample_quote :: "string \<Rightarrow> string" where
  "sample_quote s =
     (if CHR '','' \<in> set s \<or> CHR 0x22 \<in> set s \<or> CHR 0x0A \<in> set s
      then CHR 0x22 # concat (map (\<lambda>c. if c = CHR 0x22 then [c, c] else [c]) s) @ [CHR 0x22]
      else s)"

fun join_cells :: "string list \<Rightarrow> string" where
  "join_cells [] = []"
| "join_cells [x] = x"
| "join_cells (x # y # ys) = x @ '','' @ join_cells (y # ys)"

definition sample_join :: "string list \<Rightarrow> string" where
  "sample_join texts = join_cells (map sample_quote texts) @ [CHR 0x0A]"

definition sample_env :: py_env where
  "sample_env =
     \<lparr>CLEARED = 1, INDETERMINATE = 2, CRITICAL = 3, MAJOR = 4, MINOR = 5, WARNING = 6,
      maxint = 9223372036854775807,
      repr_container = sample_repr 9223372036854775807,
      dict_order = (\<lambda>ks. ks),
      csv_join = sample_join\<rparr>"

text \<open>A level record with the given severity, and the \<open>AlarmLevel\<close> object it gives.\<close>

definition sample_level :: "string \<Rightarrow> pyval" where
  "sample_level severity =
     PDict [(''severity'', PStr severity),
            (''details'', PStr ''The process has failed.''),
            (''description'', PStr ''Process failure''),
            (''cause'', PStr ''The process was stopped.''),
            (''effect'', PStr ''No service.''),
            (''action'', PStr ''Restart the process.'')]"

definition sample_level_obj :: "string \<Rightarrow> int \<Rightarrow> string \<Rightarrow> alarm_level" where
  "sample_level_obj severity itu oid =
     \<lparr>level_details = PStr ''The process has failed.'',
      level_description = PStr ''Process failure'',
      level_cause = PStr ''The process was stopped.'',
      level_effect = PStr ''No service.'',
      level_action = PStr ''Restart the process.'',
      level_itu_severity = itu,
      level_oid = oid,
      level_severity_string = PStr severity\<rparr>"

text \<open>An alarm record with a given index and given levels, and the record of the examples.\<close>

definition sample_record_with :: "pyval \<Rightarrow> pyval list \<Rightarrow> pyval" where
  "sample_record_with index levels =
     PDict [(''name'', PStr ''process_fail''),
            (''index'', index),
            (''cause'', PStr ''Software_Error''),
            (''levels'', PList levels)]"

definition sample_record :: pyval where
  "sample_record =
     sample_record_with (PInt 1000)
       [sample_level ''cleared'', sample_level ''Major'', sample_level ''critical'']"

definition sample_alarm :: alarm where
  "sample_alarm =
     \<lparr>alarm_name = PStr ''process_fail'',
      alarm_index = PInt 1000,
      alarm_cause = PStr ''Software_Error'',
      alarm_levels =
        [(1, sample_level_obj ''cleared'' 1 ''1000.1''),
         (4, sample_level_obj ''Major'' 4 ''1000.5''),
         (3, sample_level_obj ''critical'' 3 ''1000.6'')]\<rparr>"

text \<open>A record with two cleared levels and a major one, and the alarm it gives.\<close>

definition two_cleared_record :: pyval where
  "two_cleared_record =
     sample_record_with (PInt 1000)
       [sample_level ''cleared'', sample_level ''CLEARED'', sample_level ''major'']"

definition two_cleared_alarm :: alarm where
  "two_cleared_alarm =
     \<lparr>alarm_name = PStr ''process_fail'',
      alarm_index = PInt 1000,
      alarm_cause = PStr ''Software_Error'',
      alarm_levels =
        [(1, sample_level_obj ''CLEARED'' 1 ''1000.1''),
         (4, sample_level_obj ''major'' 4 ''1000.5'')]\<rparr>"

text \<open>A level record with both extended fields, and the \<open>AlarmLevel\<close> object it gives.\<close>

definition extended_level :: pyval where
  "extended_level =
     PDict [(''severity'', PStr ''minor''),
            (''details'', PStr ''The process has failed.''),
            (''description'', PStr ''Process failure''),
            (''cause'', PStr ''The process was stopped.''),
            (''effect'', PStr ''No service.''),
            (''action'', PStr ''Restart the process.''),
            (''extended_details'', PStr ''The process has failed and was not restarted.''),
            (''extended_description'', PStr ''Process failure without restart'')]"

definition extended_level_obj :: alarm_level where
  "extended_level_obj =
     \<lparr>level_details = PStr ''The process has failed and was not restarted.'',
      level_description = PStr ''Process failure without restart'',
      level_cause = PStr ''The process was stopped.'',
      level_effect = PStr ''No service.'',
      level_action = PStr ''Restart the process.'',
      level_itu_severity = 5,
      level_oid = ''1000.4'',
      level_severity_string = PStr ''minor''\<rparr>"


text \<open>The sample record with another cause.\<close>

definition record_with_cause :: "string \<Rightarrow> pyval" where
  "record_with_cause cause =
     PDict [(''name'', PStr ''process_fail''),
            (''index'', PInt 1000),
            (''cause'', PStr cause),
            (''levels'', PList [sample_level ''cleared'', sample_level ''critical''])]"



text \<open>
  The fields of the sample record, and a record whose index is a text with a character
  outside ASCII (\<open>CHR 0xE9\<close>, the e with acute accent).
\<close>

definition sample_fields :: "(string \<times> pyval) list" where
  "sample_fields =
     [(''name'', PStr ''process_fail''),
      (''index'', PInt 1000),
      (''cause'', PStr ''Software_Error''),
      (''levels'',
       PList [sample_level ''cleared'', sample_level ''Major'', sample_level ''critical''])]"

definition accent_index_record :: pyval where
  "accent_index_record =
     sample_record_with (PStr [CHR ''c'', CHR ''a'', CHR ''f'', CHR 0xE9])
       [sample_level ''cleared'', sample_level ''critical'']"



section \<open>Basic facts\<close>

lemma ebind_Inl [simp]: "ebind (Inl e) f = Inl e"
  by (simp add: ebind_def)

lemma ebind_Inr [simp]: "ebind (Inr x) f = f x"
  by (simp add: ebind_def)

lemma ebind_eq_Inr: "ebind m f = Inr y \<longleftrightarrow> (\<exists>x. m = Inr x \<and> f x = Inr y)"
  by (cases m) simp_all

declare str_nat.simps [simp del]

lemma ebindE:
  assumes "ebind m f = Inr y"
  obtains x where "m = Inr x" and "f x = Inr y"
  using assms by (auto simp: ebind_eq_Inr)

lemma lower_Inr: "lower v = Inr s \<Longrightarrow> \<exists>t. v = PStr t \<and> s = map lower_char t"
  by (cases v) auto

lemma set_update_subset: "set (AList.update k v d) \<subseteq> insert (k, v) (set d)"
  by (induction d) auto

lemma ebind_eq_Inl: "ebind m f = Inl e \<longleftrightarrow> m = Inl e \<or> (\<exists>x. m = Inr x \<and> f x = Inl e)"
  by (cases m) simp_all

lemma getitem_Inl: "getitem v k = Inl e \<Longrightarrow> e = KeyError k \<or> e = TypeError"
  by (cases v) (auto split: option.splits)

lemma lower_Inl: "lower v = Inl e \<Longrightarrow> e = AttributeError"
  by (cases v) auto

lemma py_len_Inl: "py_len v = Inl e \<Longrightarrow> e = TypeError"
  by (cases v) auto

lemma py_iter_Inl: "py_iter v = Inl e \<Longrightarrow> e = TypeError"
  by (cases v) auto

lemma py_str_Inl: "py_str env v = Inl e \<Longrightarrow> e = UnicodeEncodeError"
  by (cases v) (auto simp: encode_ascii_def split: if_splits)

section \<open>Assertions and their messages\<close>

lemma format_args_Inl: "format_args env args = Inl e \<Longrightarrow> e = UnicodeEncodeError"
  by (induction args) (auto simp: ebind_eq_Inl dest: py_str_Inl)

lemma raise_assertion_not_Inr [simp]: "raise_assertion env args a \<noteq> Inr x"
  by (cases "format_args env args") (simp_all add: raise_assertion_def)

lemma raise_assertion_not_Inr' [simp]: "Inr x \<noteq> raise_assertion env args a"
  using raise_assertion_not_Inr[of env args a x] by metis

lemma ebind_raise_assertion [simp]:
  "ebind (raise_assertion env args a) f = raise_assertion env args a"
  by (cases "format_args env args") (simp_all add: raise_assertion_def)

lemma raise_assertion_Inl:
  "raise_assertion env args a = Inl e \<Longrightarrow> e = AssertionError a \<or> e = UnicodeEncodeError"
  unfolding raise_assertion_def by (auto simp: ebind_eq_Inl dest: format_args_Inl)

lemma raise_assertion_one:
  "raise_assertion env [v] a =
     (if \<exists>s. py_str env v = Inr s then Inl (AssertionError a) else Inl UnicodeEncodeError)"
proof (cases "py_str env v")
  case (Inl e)
  with py_str_Inl[OF Inl] show ?thesis by (simp add: raise_assertion_def)
next
  case (Inr s)
  then show ?thesis by (simp add: raise_assertion_def)
qed

lemma raise_assertion_two:
  "raise_assertion env [v, w] a =
     (if (\<exists>s. py_str env v = Inr s) \<and> (\<exists>s. py_str env w = Inr s)
      then Inl (AssertionError a) else Inl UnicodeEncodeError)"
proof (cases "py_str env v")
  case (Inl e)
  with py_str_Inl[OF Inl] show ?thesis by (simp add: raise_assertion_def)
next
  case v: (Inr s)
  show ?thesis
  proof (cases "py_str env w")
    case (Inl e)
    with v py_str_Inl[OF Inl] show ?thesis by (simp add: raise_assertion_def)
  next
    case (Inr t)
    with v show ?thesis by (simp add: raise_assertion_def)
  qed
qed

lemma py_assert_True [simp]: "py_assert env True args a = Inr ()"
  by (simp add: py_assert_def)

lemma py_assert_False [simp]: "py_assert env False args a = raise_assertion env args a"
  by (simp add: py_assert_def)

lemma py_assert_Inr: "py_assert env c args a = Inr u \<Longrightarrow> c"
  by (cases c) simp_all

lemma py_assert_Inl:
  "py_assert env c args a = Inl e \<Longrightarrow> \<not> c \<and> (e = AssertionError a \<or> e = UnicodeEncodeError)"
  by (cases c) (auto dest: raise_assertion_Inl)

section \<open>What a successful validation tells\<close>

lemma AlarmLevel_Inr:
  assumes "AlarmLevel env nm idx lvl = Inr l"
  shows "\<exists>details description sev index_str state.
           checked_len env nm lvl ''details'' 256 DetailsLength = Inr details \<and>
           checked_len env nm lvl ''description'' 256 DescriptionLength = Inr description \<and>
           checked_len env nm lvl ''cause'' 4096 CauseLength = Inr (level_cause l) \<and>
           checked_len env nm lvl ''effect'' 4096 EffectLength = Inr (level_effect l) \<and>
           checked_len env nm lvl ''action'' 4096 ActionLength = Inr (level_action l) \<and>
           optional_len env nm lvl ''extended_details'' 4096 ExtendedDetailsLength details
             = Inr (level_details l) \<and>
           optional_len env nm lvl ''extended_description'' 4096 ExtendedDescriptionLength
             description = Inr (level_description l) \<and>
           getitem lvl ''severity'' = Inr (PStr sev) \<and>
           level_severity_string l = PStr sev \<and>
           map_of (itu_severities env) (map lower_char sev) = Some (level_itu_severity l) \<and>
           py_str env idx = Inr index_str \<and>
           map_of alarm_model_state (map lower_char sev) = Some state \<and>
           level_oid l = index_str @ ''.'' @ str_int state"
proof -
  from assms obtain details description cause effect action details' description'
      severity_string severity
    where f: "checked_len env nm lvl ''details'' 256 DetailsLength = Inr details"
        "checked_len env nm lvl ''description'' 256 DescriptionLength = Inr description"
        "checked_len env nm lvl ''cause'' 4096 CauseLength = Inr cause"
        "checked_len env nm lvl ''effect'' 4096 EffectLength = Inr effect"
        "checked_len env nm lvl ''action'' 4096 ActionLength = Inr action"
        "optional_len env nm lvl ''extended_details'' 4096 ExtendedDetailsLength details
           = Inr details'"
        "optional_len env nm lvl ''extended_description'' 4096 ExtendedDescriptionLength
           description = Inr description'"
      and sv: "getitem lvl ''severity'' = Inr severity_string"
      and lw: "lower severity_string = Inr severity"
      and rest: "(case map_of (itu_severities env) severity of
          None \<Rightarrow> Inl (KeyError severity)
        | Some itu \<Rightarrow>
            ebind (py_str env idx) (\<lambda>index_str.
            case map_of alarm_model_state severity of
              None \<Rightarrow> Inl (KeyError severity)
            | Some state \<Rightarrow>
                Inr \<lparr>level_details = details',
                     level_description = description',
                     level_cause = cause,
                     level_effect = effect,
                     level_action = action,
                     level_itu_severity = itu,
                     level_oid = index_str @ ''.'' @ str_int state,
                     level_severity_string = severity_string\<rparr>)) = Inr l"
    unfolding AlarmLevel_def by (elim ebindE) blast
  from lw obtain sev where sev: "severity_string = PStr sev" "severity = map lower_char sev"
    using lower_Inr by blast
  from rest obtain itu where itu: "map_of (itu_severities env) severity = Some itu"
    by (cases "map_of (itu_severities env) severity") auto
  with rest obtain index_str where ix: "py_str env idx = Inr index_str"
    and rest2: "(case map_of alarm_model_state severity of
          None \<Rightarrow> Inl (KeyError severity)
        | Some state \<Rightarrow>
            Inr \<lparr>level_details = details',
                 level_description = description',
                 level_cause = cause,
                 level_effect = effect,
                 level_action = action,
                 level_itu_severity = itu,
                 level_oid = index_str @ ''.'' @ str_int state,
                 level_severity_string = severity_string\<rparr>) = Inr l"
    by (auto elim: ebindE)
  from rest2 obtain state where st: "map_of alarm_model_state severity = Some state"
    by (cases "map_of alarm_model_state severity") auto
  with rest2 have l: "l = \<lparr>level_details = details',
                 level_description = description',
                 level_cause = cause,
                 level_effect = effect,
                 level_action = action,
                 level_itu_severity = itu,
                 level_oid = index_str @ ''.'' @ str_int state,
                 level_severity_string = severity_string\<rparr>" by simp
  show ?thesis using f sv sev itu ix st l by simp
qed

text \<open>Every entry of the dict that the loop returns was there before or was made by it.\<close>

lemma levels_loop_from:
  assumes "levels_loop env nm idx lvls (d, fc, fnc) = Inr (d', fc', fnc')" and "(k, l) \<in> set d'"
  shows "(k, l) \<in> set d \<or>
         (\<exists>lvl \<in> set lvls. AlarmLevel env nm idx lvl = Inr l \<and> k = level_itu_severity l)"
  using assms
proof (induction lvls arbitrary: d fc fnc)
  case Nil
  then show ?case by simp
next
  case (Cons lvl lvls)
  from Cons.prems(1) obtain lo where lo: "AlarmLevel env nm idx lvl = Inr lo"
    and rest: "levels_loop env nm idx lvls
       (AList.update (level_itu_severity lo) lo d,
        (if level_itu_severity lo = CLEARED env then True else fc),
        (if level_itu_severity lo = CLEARED env then fnc else True)) = Inr (d', fc', fnc')"
    by (auto elim: ebindE)
  from Cons.IH[OF rest Cons.prems(2)] show ?case
  proof
    assume "(k, l) \<in> set (AList.update (level_itu_severity lo) lo d)"
    with set_update_subset have "(k, l) = (level_itu_severity lo, lo) \<or> (k, l) \<in> set d"
      by fastforce
    with lo show ?thesis by auto
  next
    assume "\<exists>lvl\<in>set lvls. AlarmLevel env nm idx lvl = Inr l \<and> k = level_itu_severity l"
    then show ?thesis by auto
  qed
qed

lemma Alarm_Inr:
  assumes "Alarm env r = Inr a"
  shows "\<exists>cause_text lv levels.
           getitem r ''name'' = Inr (alarm_name a) \<and>
           getitem r ''index'' = Inr (alarm_index a) \<and>
           getitem r ''cause'' = Inr (alarm_cause a) \<and>
           alarm_cause a = PStr cause_text \<and>
           map lower_char cause_text \<in> set valid_causes \<and>
           getitem r ''levels'' = Inr lv \<and>
           py_iter lv = Inr levels \<and>
           levels_loop env (alarm_name a) (alarm_index a) levels ([], False, False)
             = Inr (alarm_levels a, True, True)"
proof -
  from assms obtain name index cause cause_lower u lv levels st
    where g: "getitem r ''name'' = Inr name" "getitem r ''index'' = Inr index"
        "getitem r ''cause'' = Inr cause" "lower cause = Inr cause_lower"
      and valid: "py_assert env (cause_lower \<in> set valid_causes) [cause, name] CauseInvalid
                    = Inr u"
      and h: "getitem r ''levels'' = Inr lv" "py_iter lv = Inr levels"
        "levels_loop env name index levels ([], False, False) = Inr st"
      and fin: "(case st of (levels_dict, found_cleared, found_non_cleared) \<Rightarrow>
         ebind (py_assert env found_cleared [name] MissingCleared) (\<lambda>_.
         ebind (py_assert env found_non_cleared [name] MissingNonCleared) (\<lambda>_.
         Inr \<lparr>alarm_name = name,
              alarm_index = index,
              alarm_cause = cause,
              alarm_levels = levels_dict\<rparr>))) = Inr a"
    unfolding Alarm_def by (elim ebindE) blast
  from g(4) obtain cause_text where ct: "cause = PStr cause_text"
      "cause_lower = map lower_char cause_text"
    using lower_Inr by blast
  from py_assert_Inr[OF valid] have valid': "cause_lower \<in> set valid_causes" .
  obtain d fc fnc where st: "st = (d, fc, fnc)" by (cases st) auto
  from fin[unfolded st] obtain u1 u2 where
    "py_assert env fc [name] MissingCleared = Inr u1"
    "py_assert env fnc [name] MissingNonCleared = Inr u2"
    and a: "a = \<lparr>alarm_name = name, alarm_index = index,
      alarm_cause = cause, alarm_levels = d\<rparr>"
    by (auto elim!: ebindE)
  then have "fc" "fnc" by (auto dest: py_assert_Inr)
  with a g ct valid' h st show ?thesis by simp
qed

text \<open>Every level of a validated alarm was made by \<open>AlarmLevel\<close> from the alarm's index.\<close>

lemma Alarm_level_made:
  assumes "Alarm env r = Inr a" and "(k, l) \<in> set (alarm_levels a)"
  shows "\<exists>lvl. AlarmLevel env (alarm_name a) (alarm_index a) lvl = Inr l \<and>
           k = level_itu_severity l"
proof -
  from Alarm_Inr[OF assms(1)] obtain levels where
    loop: "levels_loop env (alarm_name a) (alarm_index a) levels ([], False, False)
             = Inr (alarm_levels a, True, True)"
    by blast
  from levels_loop_from[OF loop assms(2)] show ?thesis by auto
qed

section \<open>The OID suffix\<close>

text \<open>
  C1. In an alarm that was validated, the \<open>oid\<close> of every level is the \<open>str\<close> of the
  alarm's index, a period, and the decimal numeral of the model state of the level's
  severity in lower case, the model states being cleared 1, indeterminate 2, warning 3,
  minor 4, major 5 and critical 6.
\<close>

theorem oid_suffix_index_dot_model_state:
  assumes "Alarm env r = Inr a" and "(k, l) \<in> set (alarm_levels a)"
  shows "\<exists>index_str severity ordinal.
           py_str env (alarm_index a) = Inr index_str \<and>
           lower (level_severity_string l) = Inr severity \<and>
           (severity, ordinal) \<in> set [(''cleared'', 1), (''indeterminate'', 2), (''warning'', 3),
                                       (''minor'', 4), (''major'', 5), (''critical'', 6)] \<and>
           level_oid l = index_str @ ''.'' @ str_int ordinal"
proof -
  from Alarm_level_made[OF assms] obtain lvl where
    "AlarmLevel env (alarm_name a) (alarm_index a) lvl = Inr l" by auto
  from AlarmLevel_Inr[OF this] obtain sev index_str state where
    s: "level_severity_string l = PStr sev"
       "py_str env (alarm_index a) = Inr index_str"
       "map_of alarm_model_state (map lower_char sev) = Some state"
       "level_oid l = index_str @ ''.'' @ str_int state"
    by blast
  from s(3) have "(map lower_char sev, state) \<in> set alarm_model_state"
    by (rule map_of_SomeD)
  then have "(map lower_char sev, state) \<in>
      set [(''cleared'', 1), (''indeterminate'', 2), (''warning'', 3),
           (''minor'', 4), (''major'', 5), (''critical'', 6)]"
    unfolding alarm_model_state_def by auto
  with s show ?thesis by auto
qed

text \<open>
  The sample record has index 1000; its level of severity \<open>Major\<close> gets \<open>1000.5\<close> and
  its cleared level \<open>1000.1\<close>.
\<close>

theorem oid_suffix_index_dot_model_state_witness:
  "Alarm sample_env sample_record = Inr sample_alarm \<and>
   (4, sample_level_obj ''Major'' 4 ''1000.5'') \<in> set (alarm_levels sample_alarm) \<and>
   (1, sample_level_obj ''cleared'' 1 ''1000.1'') \<in> set (alarm_levels sample_alarm) \<and>
   py_str sample_env (alarm_index sample_alarm) = Inr ''1000'' \<and>
   str_int 5 = ''5'' \<and> str_int 1 = ''1'' \<and>
   (\<exists>index_str severity ordinal.
      py_str sample_env (alarm_index sample_alarm) = Inr index_str \<and>
      lower (level_severity_string (sample_level_obj ''Major'' 4 ''1000.5'')) = Inr severity \<and>
      (severity, ordinal) \<in> set [(''cleared'', 1), (''indeterminate'', 2), (''warning'', 3),
                                  (''minor'', 4), (''major'', 5), (''critical'', 6)] \<and>
      level_oid (sample_level_obj ''Major'' 4 ''1000.5'') = index_str @ ''.'' @ str_int ordinal)"
proof -
  have h1: "Alarm sample_env sample_record = Inr sample_alarm"
    by code_simp
  have h2: "(4, sample_level_obj ''Major'' 4 ''1000.5'') \<in> set (alarm_levels sample_alarm)"
    by (simp add: sample_alarm_def)
  have h3: "(1, sample_level_obj ''cleared'' 1 ''1000.1'') \<in> set (alarm_levels sample_alarm)"
    by (simp add: sample_alarm_def)
  have h4: "py_str sample_env (alarm_index sample_alarm) = Inr ''1000''"
    by code_simp
  have h5: "str_int 5 = ''5''" "str_int 1 = ''1''"
    by code_simp+
  from oid_suffix_index_dot_model_state[OF h1 h2] h1 h2 h3 h4 h5 show ?thesis
    by blast
qed

section \<open>Records whose levels are all valid\<close>

lemma levels_loop_all_valid:
  assumes "list_all2 (\<lambda>lvl l. AlarmLevel env n idx lvl = Inr l) lvls objs"
  shows "levels_loop env n idx lvls (d, fc, fnc) =
           Inr (fold (\<lambda>l. AList.update (level_itu_severity l) l) objs d,
                fc \<or> (\<exists>l\<in>set objs. level_itu_severity l = CLEARED env),
                fnc \<or> (\<exists>l\<in>set objs. level_itu_severity l \<noteq> CLEARED env))"
  using assms
proof (induction lvls objs arbitrary: d fc fnc rule: list_all2_induct)
  case Nil
  then show ?case by simp
next
  case (Cons lvl lvls l objs)
  show ?case
    by (cases "level_itu_severity l = CLEARED env") (auto simp: Cons)
qed

lemma Alarm_all_valid:
  assumes "getitem r ''name'' = Inr n" and "getitem r ''index'' = Inr idx"
    and "getitem r ''cause'' = Inr c" and "lower c = Inr cl" and "cl \<in> set valid_causes"
    and "getitem r ''levels'' = Inr lv" and "py_iter lv = Inr lvls"
    and "list_all2 (\<lambda>lvl l. AlarmLevel env n idx lvl = Inr l) lvls objs"
  shows "Alarm env r =
           (if \<not> (\<exists>l\<in>set objs. level_itu_severity l = CLEARED env)
              then raise_assertion env [n] MissingCleared
            else if \<not> (\<exists>l\<in>set objs. level_itu_severity l \<noteq> CLEARED env)
              then raise_assertion env [n] MissingNonCleared
            else Inr \<lparr>alarm_name = n, alarm_index = idx, alarm_cause = c,
                      alarm_levels = store_levels objs\<rparr>)"
  unfolding Alarm_def store_levels_def
  by (simp add: assms(1-7) levels_loop_all_valid[OF assms(8)] py_assert_def)

lemma AlarmLevel_severity_code:
  assumes "AlarmLevel env nm idx lvl = Inr l"
  shows "\<exists>sev. level_severity lvl = Inr sev \<and> lower (level_severity_string l) = Inr sev \<and>
           map_of (itu_severities env) sev = Some (level_itu_severity l)"
  using AlarmLevel_Inr[OF assms] by (auto simp: level_severity_def)

lemma cleared_code:
  assumes "map_of (itu_severities env) sev = Some k"
  shows "sev = ''cleared'' \<Longrightarrow> k = CLEARED env"
    and "codes_distinct env \<Longrightarrow> k = CLEARED env \<Longrightarrow> sev = ''cleared''"
  using assms by (auto simp: itu_severities_def codes_distinct_def split: if_splits)

lemma find_snoc:
  "List.find P (xs @ [x]) = (case List.find P xs of Some y \<Rightarrow> Some y | None \<Rightarrow> if P x then Some x else None)"
  by (induction xs) auto

lemma map_of_fold_update:
  "map_of (fold (\<lambda>l. AList.update (f l) l) objs d) k =
     (case List.find (\<lambda>l. f l = k) (rev objs) of Some l \<Rightarrow> Some l | None \<Rightarrow> map_of d k)"
proof (induction objs arbitrary: d)
  case Nil
  then show ?case by simp
next
  case (Cons l objs)
  show ?case
    by (simp add: Cons update_conv' find_snoc split: option.splits)
qed

lemma distinct_fold_update:
  "distinct (map fst d) \<Longrightarrow> distinct (map fst (fold (\<lambda>l. AList.update (f l) l) objs d))"
  by (induction objs arbitrary: d) (simp_all add: distinct_update)

lemma keys_fold_update:
  "fst ` set (fold (\<lambda>l. AList.update (f l) l) objs d) = f ` set objs \<union> fst ` set d"
  by (induction objs arbitrary: d) (auto simp: dom_update)

lemma list_all2_right:
  assumes "list_all2 P xs ys" and "y \<in> set ys"
  shows "\<exists>x\<in>set xs. P x y"
  using assms by (induction rule: list_all2_induct) auto

lemma list_all2_left:
  assumes "list_all2 P xs ys" and "x \<in> set xs"
  shows "\<exists>y\<in>set ys. P x y"
  using assms by (induction rule: list_all2_induct) auto

lemma entries_fold_update:
  assumes "(k, l) \<in> set (fold (\<lambda>l. AList.update (f l) l) objs d)"
  shows "(k, l) \<in> set d \<or> (l \<in> set objs \<and> k = f l)"
  using assms
proof (induction objs arbitrary: d)
  case Nil
  then show ?case by simp
next
  case (Cons x objs)
  from Cons.IH[of "AList.update (f x) x d"] Cons.prems
  have "(k, l) \<in> set (AList.update (f x) x d) \<or> (l \<in> set objs \<and> k = f l)" by simp
  with set_update_subset[of "f x" x d] show ?case by auto
qed

lemma one_entry_per_key:
  assumes "distinct (map fst d)" and "k \<in> fst ` set d"
  shows "length (filter (\<lambda>kv. fst kv = k) d) = 1"
  using assms
proof (induction d)
  case Nil
  then show ?case by simp
next
  case (Cons p d)
  show ?case
  proof (cases "fst p = k")
    case True
    with Cons.prems(1) have "\<forall>kv\<in>set d. fst kv \<noteq> k"
      by (auto simp: image_iff)
    then have "filter (\<lambda>kv. fst kv = k) d = []"
      by (simp add: filter_empty_conv)
    with True show ?thesis by simp
  next
    case False
    with Cons show ?thesis by auto
  qed
qed

lemma AlarmLevel_cleared_iff:
  assumes "AlarmLevel env nm idx lvl = Inr l" and "codes_distinct env"
  shows "level_itu_severity l = CLEARED env \<longleftrightarrow> level_severity lvl = Inr ''cleared''"
    and "level_itu_severity l = CLEARED env
           \<longleftrightarrow> lower (level_severity_string l) = Inr ''cleared''"
proof -
  from AlarmLevel_severity_code[OF assms(1)] obtain sev where
    s: "level_severity lvl = Inr sev" "lower (level_severity_string l) = Inr sev"
       "map_of (itu_severities env) sev = Some (level_itu_severity l)"
    by blast
  from cleared_code[OF s(3)] assms(2)
  have "level_itu_severity l = CLEARED env \<longleftrightarrow> sev = ''cleared''" by blast
  with s show "level_itu_severity l = CLEARED env \<longleftrightarrow> level_severity lvl = Inr ''cleared''"
    and "level_itu_severity l = CLEARED env
           \<longleftrightarrow> lower (level_severity_string l) = Inr ''cleared''"
    by simp_all
qed

section \<open>The cleared and the non-cleared level\<close>



section \<open>Two cleared levels\<close>

text \<open>
  C2, as the claim states it, fails: the record with the levels cleared, CLEARED and
  major is validated. The second cleared level has taken the place of the first.
\<close>

theorem two_cleared_levels_counterexample:
  "Alarm sample_env two_cleared_record = Inr two_cleared_alarm"
  by code_simp

text \<open>
  C2, amended. Take an alarm record with name, index and a valid cause whose levels all
  pass \<open>AlarmLevel\<close>, two or more of them with the severity cleared, the ITU codes being
  distinct. It is validated exactly when it has a level of another severity; when all
  its levels are cleared, \<open>Alarm\<close> fails on the assertion that a non-cleared severity is
  missing, with the \<open>AssertionError\<close> if the name of the alarm has a \<open>str\<close> to put in
  the message and with \<open>UnicodeEncodeError\<close> if it has none. The alarm of a validated
  record holds one cleared level, the one made from the last cleared level of the
  record.
\<close>

theorem two_cleared_levels:
  assumes "getitem r ''name'' = Inr n" and "getitem r ''index'' = Inr idx"
    and "getitem r ''cause'' = Inr c" and "lower c = Inr cl" and "cl \<in> set valid_causes"
    and "getitem r ''levels'' = Inr lv" and "py_iter lv = Inr lvls"
    and "list_all2 (\<lambda>lvl l. AlarmLevel env n idx lvl = Inr l) lvls objs"
    and "codes_distinct env"
    and "2 \<le> length (filter (\<lambda>lvl. level_severity lvl = Inr ''cleared'') lvls)"
  shows "((\<exists>a. Alarm env r = Inr a) \<longleftrightarrow> (\<exists>lvl\<in>set lvls. level_severity lvl \<noteq> Inr ''cleared'')) \<and>
         ((\<forall>lvl\<in>set lvls. level_severity lvl = Inr ''cleared'')
            \<longrightarrow> Alarm env r =
                  (if \<exists>ns. py_str env n = Inr ns then Inl (AssertionError MissingNonCleared)
                   else Inl UnicodeEncodeError)) \<and>
         (\<forall>a. Alarm env r = Inr a \<longrightarrow>
            length (filter (\<lambda>kv. lower (level_severity_string (snd kv)) = Inr ''cleared'')
                      (alarm_levels a)) = 1 \<and>
            map_of (alarm_levels a) (CLEARED env)
              = List.find (\<lambda>l. lower (level_severity_string l) = Inr ''cleared'') (rev objs))"
proof -
  note res = Alarm_all_valid[OF assms(1-8)]
  let ?cl = "\<lambda>l. level_itu_severity l = CLEARED env"
  have obj_name: "?cl l \<longleftrightarrow> lower (level_severity_string l) = Inr ''cleared''"
    if "l \<in> set objs" for l
  proof -
    from list_all2_right[OF assms(8) that] obtain lvl where
      "AlarmLevel env n idx lvl = Inr l" by auto
    from AlarmLevel_cleared_iff(2)[OF this assms(9)] show ?thesis .
  qed
  from assms(10) have "filter (\<lambda>lvl. level_severity lvl = Inr ''cleared'') lvls \<noteq> []"
    by auto
  then obtain lvl0 where lvl0: "lvl0 \<in> set lvls" "level_severity lvl0 = Inr ''cleared''"
    by (auto simp: filter_empty_conv)
  from list_all2_left[OF assms(8) lvl0(1)] obtain l0 where
    l0: "l0 \<in> set objs" "AlarmLevel env n idx lvl0 = Inr l0" by auto
  from AlarmLevel_cleared_iff(1)[OF l0(2) assms(9)] lvl0(2) have "?cl l0" by simp
  with l0(1) have ex: "\<exists>l\<in>set objs. ?cl l" by blast
  have non: "(\<exists>l\<in>set objs. \<not> ?cl l) \<longleftrightarrow> (\<exists>lvl\<in>set lvls. level_severity lvl \<noteq> Inr ''cleared'')"
  proof
    assume "\<exists>l\<in>set objs. \<not> ?cl l"
    then obtain l where l: "l \<in> set objs" "\<not> ?cl l" by blast
    from list_all2_right[OF assms(8) l(1)] obtain lvl where
      lvl: "lvl \<in> set lvls" "AlarmLevel env n idx lvl = Inr l" by auto
    from AlarmLevel_cleared_iff(1)[OF lvl(2) assms(9)] l(2) lvl(1)
    show "\<exists>lvl\<in>set lvls. level_severity lvl \<noteq> Inr ''cleared''" by blast
  next
    assume "\<exists>lvl\<in>set lvls. level_severity lvl \<noteq> Inr ''cleared''"
    then obtain lvl where lvl: "lvl \<in> set lvls" "level_severity lvl \<noteq> Inr ''cleared''" by blast
    from list_all2_left[OF assms(8) lvl(1)] obtain l where
      l: "l \<in> set objs" "AlarmLevel env n idx lvl = Inr l" by auto
    from AlarmLevel_cleared_iff(1)[OF l(2) assms(9)] lvl(2) l(1)
    show "\<exists>l\<in>set objs. \<not> ?cl l" by blast
  qed
  have res': "Alarm env r =
      (if \<exists>l\<in>set objs. \<not> ?cl l
       then Inr \<lparr>alarm_name = n, alarm_index = idx, alarm_cause = c,
                 alarm_levels = store_levels objs\<rparr>
       else raise_assertion env [n] MissingNonCleared)"
    unfolding res using ex by simp
  have p1: "(\<exists>a. Alarm env r = Inr a) \<longleftrightarrow> (\<exists>lvl\<in>set lvls. level_severity lvl \<noteq> Inr ''cleared'')"
    unfolding res' non[symmetric] by simp
  have p2: "(\<forall>lvl\<in>set lvls. level_severity lvl = Inr ''cleared'')
            \<longrightarrow> Alarm env r =
                  (if \<exists>ns. py_str env n = Inr ns then Inl (AssertionError MissingNonCleared)
                   else Inl UnicodeEncodeError)"
    using non unfolding res' raise_assertion_one by auto
  have keyed: "fst kv = CLEARED env \<longleftrightarrow> lower (level_severity_string (snd kv)) = Inr ''cleared''"
    if "kv \<in> set (store_levels objs)" for kv
  proof -
    from that have "(fst kv, snd kv) \<in> set (fold (\<lambda>l. AList.update (level_itu_severity l) l) objs [])"
      by (simp add: store_levels_def)
    from entries_fold_update[OF this] have "snd kv \<in> set objs" "fst kv = level_itu_severity (snd kv)"
      by auto
    with obj_name show ?thesis by simp
  qed
  have "length (filter (\<lambda>kv. fst kv = CLEARED env) (store_levels objs)) = 1"
  proof (rule one_entry_per_key)
    show "distinct (map fst (store_levels objs))"
      unfolding store_levels_def by (rule distinct_fold_update) simp
    show "CLEARED env \<in> fst ` set (store_levels objs)"
      unfolding store_levels_def keys_fold_update using ex by (force simp: image_iff)
  qed
  moreover have "filter (\<lambda>kv. lower (level_severity_string (snd kv)) = Inr ''cleared'') (store_levels objs)
      = filter (\<lambda>kv. fst kv = CLEARED env) (store_levels objs)"
    by (rule filter_cong) (simp_all add: keyed)
  ultimately have one: "length (filter (\<lambda>kv. lower (level_severity_string (snd kv)) = Inr ''cleared'')
      (store_levels objs)) = 1" by simp
  have "map_of (store_levels objs) (CLEARED env) = List.find ?cl (rev objs)"
    unfolding store_levels_def map_of_fold_update by (simp split: option.splits)
  also have "\<dots> = List.find (\<lambda>l. lower (level_severity_string l) = Inr ''cleared'') (rev objs)"
    by (rule find_cong) (simp_all add: obj_name)
  finally have last: "map_of (store_levels objs) (CLEARED env)
     = List.find (\<lambda>l. lower (level_severity_string l) = Inr ''cleared'') (rev objs)" .
  have p3: "\<forall>a. Alarm env r = Inr a \<longrightarrow>
            length (filter (\<lambda>kv. lower (level_severity_string (snd kv)) = Inr ''cleared'')
                      (alarm_levels a)) = 1 \<and>
            map_of (alarm_levels a) (CLEARED env)
              = List.find (\<lambda>l. lower (level_severity_string l) = Inr ''cleared'') (rev objs)"
  proof (intro allI impI)
    fix a assume "Alarm env r = Inr a"
    with res' have "alarm_levels a = store_levels objs"
      by (auto split: if_splits)
    with one last show "length (filter (\<lambda>kv. lower (level_severity_string (snd kv)) = Inr ''cleared'')
                      (alarm_levels a)) = 1 \<and>
            map_of (alarm_levels a) (CLEARED env)
              = List.find (\<lambda>l. lower (level_severity_string l) = Inr ''cleared'') (rev objs)"
      by simp
  qed
  from p1 p2 p3 show ?thesis by blast
qed

theorem two_cleared_levels_witness:
  "codes_distinct sample_env \<and>
   2 \<le> length (filter (\<lambda>lvl. level_severity lvl = Inr ''cleared'')
          [sample_level ''cleared'', sample_level ''CLEARED'', sample_level ''major'']) \<and>
   (\<exists>a. Alarm sample_env two_cleared_record = Inr a) \<and>
   (\<exists>lvl\<in>set [sample_level ''cleared'', sample_level ''CLEARED'', sample_level ''major''].
      level_severity lvl \<noteq> Inr ''cleared'') \<and>
   List.find (\<lambda>l. lower (level_severity_string l) = Inr ''cleared'')
     (rev [sample_level_obj ''cleared'' 1 ''1000.1'', sample_level_obj ''CLEARED'' 1 ''1000.1'',
           sample_level_obj ''major'' 4 ''1000.5''])
     = Some (sample_level_obj ''CLEARED'' 1 ''1000.1'')"
proof -
  let ?lvls = "[sample_level ''cleared'', sample_level ''CLEARED'', sample_level ''major'']"
  let ?objs = "[sample_level_obj ''cleared'' 1 ''1000.1'', sample_level_obj ''CLEARED'' 1 ''1000.1'',
           sample_level_obj ''major'' 4 ''1000.5'']"
  have g: "getitem two_cleared_record ''name'' = Inr (PStr ''process_fail'')"
    "getitem two_cleared_record ''index'' = Inr (PInt 1000)"
    "getitem two_cleared_record ''cause'' = Inr (PStr ''Software_Error'')"
    "getitem two_cleared_record ''levels'' = Inr (PList ?lvls)"
    "py_iter (PList ?lvls) = Inr ?lvls"
    by (simp_all add: two_cleared_record_def sample_record_with_def)
  have c: "lower (PStr ''Software_Error'') = Inr ''software_error''"
    "''software_error'' \<in> set valid_causes"
    by code_simp+
  have d: "codes_distinct sample_env"
    by code_simp
  have v: "list_all2 (\<lambda>lvl l. AlarmLevel sample_env (PStr ''process_fail'') (PInt 1000) lvl = Inr l) ?lvls ?objs"
    by code_simp
  have two: "2 \<le> length (filter (\<lambda>lvl. level_severity lvl = Inr ''cleared'') ?lvls)"
    by code_simp
  have other: "\<exists>lvl\<in>set ?lvls. level_severity lvl \<noteq> Inr ''cleared''"
    by code_simp
  have last: "List.find (\<lambda>l. lower (level_severity_string l) = Inr ''cleared'') (rev ?objs)
     = Some (sample_level_obj ''CLEARED'' 1 ''1000.1'')"
    by code_simp
  from two_cleared_levels[OF g(1-3) c g(4,5) v d two] other
  have "\<exists>a. Alarm sample_env two_cleared_record = Inr a" by blast
  with d two other last show ?thesis by blast
qed

section \<open>The checks of AlarmLevel, one by one\<close>

lemma AlarmLevel_parts:
  "AlarmLevel env nm idx lvl =
     ebind (checked_len env nm lvl ''details'' 256 DetailsLength) (\<lambda>details.
     ebind (checked_len env nm lvl ''description'' 256 DescriptionLength) (\<lambda>description.
     ebind (checked_len env nm lvl ''cause'' 4096 CauseLength) (\<lambda>cause.
     ebind (checked_len env nm lvl ''effect'' 4096 EffectLength) (\<lambda>effect.
     ebind (checked_len env nm lvl ''action'' 4096 ActionLength) (\<lambda>action.
     ebind (optional_len env nm lvl ''extended_details'' 4096 ExtendedDetailsLength details)
       (\<lambda>details'.
     ebind (optional_len env nm lvl ''extended_description'' 4096 ExtendedDescriptionLength
              description) (\<lambda>description'.
     severity_part env nm idx lvl details' description' cause effect action)))))))"
  unfolding AlarmLevel_def severity_part_def ..

lemma severity_part_Inl:
  assumes "severity_part env nm idx lvl d ds c e a = Inl err"
  shows "err = AssertionError SeverityInvalid \<or> err = UnicodeEncodeError \<or> err = AttributeError \<or>
         err = TypeError \<or> (\<exists>k. err = KeyError k)"
proof -
  from assms[unfolded severity_part_def ebind_eq_Inl]
  consider "getitem lvl ''severity'' = Inl err"
    | ss where "lower ss = Inl err"
    | c' args where "py_assert env c' args SeverityInvalid = Inl err"
    | ss sev where "(case map_of (itu_severities env) sev of
       None \<Rightarrow> Inl (KeyError sev)
     | Some itu \<Rightarrow>
         ebind (py_str env idx) (\<lambda>index_str.
         case map_of alarm_model_state sev of
           None \<Rightarrow> Inl (KeyError sev)
         | Some state \<Rightarrow>
             Inr \<lparr>level_details = d,
                  level_description = ds,
                  level_cause = c,
                  level_effect = e,
                  level_action = a,
                  level_itu_severity = itu,
                  level_oid = index_str @ ''.'' @ str_int state,
                  level_severity_string = ss\<rparr>)) = Inl err"
    by blast
  then show ?thesis
  proof cases
    case 1
    from getitem_Inl[OF this] show ?thesis by auto
  next
    case 2
    from lower_Inl[OF this] show ?thesis by auto
  next
    case 3
    from py_assert_Inl[OF this] show ?thesis by auto
  next
    case 4
    then show ?thesis
    proof (cases "map_of (itu_severities env) sev")
      case None
      with 4 show ?thesis by auto
    next
      case (Some itu)
      with 4 have "py_str env idx = Inl err \<or>
          (\<exists>s. (case map_of alarm_model_state sev of
           None \<Rightarrow> Inl (KeyError sev)
         | Some state \<Rightarrow>
             Inr \<lparr>level_details = d,
                  level_description = ds,
                  level_cause = c,
                  level_effect = e,
                  level_action = a,
                  level_itu_severity = itu,
                  level_oid = s @ ''.'' @ str_int state,
                  level_severity_string = ss\<rparr>) = Inl err)"
        by (auto simp: ebind_eq_Inl)
      then show ?thesis
      proof
        assume "py_str env idx = Inl err"
        from py_str_Inl[OF this] show ?thesis by simp
      next
        assume "\<exists>s. (case map_of alarm_model_state sev of
           None \<Rightarrow> Inl (KeyError sev)
         | Some state \<Rightarrow>
             Inr \<lparr>level_details = d,
                  level_description = ds,
                  level_cause = c,
                  level_effect = e,
                  level_action = a,
                  level_itu_severity = itu,
                  level_oid = s @ ''.'' @ str_int state,
                  level_severity_string = ss\<rparr>) = Inl err"
        then show ?thesis by (cases "map_of alarm_model_state sev") auto
      qed
    qed
  qed
qed



lemma field_len_KeyError:
  assumes "field_len lvl k = Inl (KeyError k')"
  shows "getitem lvl k = Inl (KeyError k')"
  using assms unfolding field_len_def
  by (auto simp: ebind_eq_Inl dest: py_len_Inl)



lemma checked_len_Inr:
  assumes "checked_len env nm lvl k b a = Inr v"
  shows "getitem lvl k = Inr v \<and> (\<exists>n. py_len v = Inr n \<and> n < b)"
  using assms unfolding checked_len_def
  by (auto elim!: ebindE dest: py_assert_Inr)



lemma checked_len_Inl:
  assumes "checked_len env nm lvl k b a = Inl e"
  shows "(e = AssertionError a \<and> too_long lvl k b) \<or> e = KeyError k \<or> e = TypeError \<or>
         e = UnicodeEncodeError"
proof -
  from assms[unfolded checked_len_def ebind_eq_Inl]
  consider "getitem lvl k = Inl e"
    | v where "getitem lvl k = Inr v" "py_len v = Inl e"
    | v n where "getitem lvl k = Inr v" "py_len v = Inr n" "py_assert env (n < b) [nm] a = Inl e"
    by auto
  then show ?thesis
  proof cases
    case 1
    from getitem_Inl[OF this] show ?thesis by auto
  next
    case 2
    from py_len_Inl[OF 2(2)] show ?thesis by auto
  next
    case 3
    from py_assert_Inl[OF 3(3)] 3(1,2) show ?thesis
      by (auto simp: too_long_def field_len_def)
  qed
qed

lemma checked_len_assertion:
  assumes "checked_len env nm lvl k b a = Inl (AssertionError a')"
  shows "a' = a \<and> too_long lvl k b"
  using checked_len_Inl[OF assms] by auto

lemma optional_len_Inr:
  assumes "optional_len env nm lvl k b a cur = Inr v"
  shows "(getitem lvl k = Inr v \<and> (\<exists>n. py_len v = Inr n \<and> n < b)) \<or>
         (getitem lvl k = Inl (KeyError k) \<and> v = cur)"
proof (cases "checked_len env nm lvl k b a")
  case (Inr w)
  with assms have "w = v" by (simp add: optional_len_def)
  with Inr checked_len_Inr show ?thesis by blast
next
  case (Inl e)
  with assms obtain k' where e: "e = KeyError k'" and v: "v = cur"
    by (cases e) (auto simp: optional_len_def)
  from Inl[unfolded e checked_len_def ebind_eq_Inl]
  have "getitem lvl k = Inl (KeyError k')"
    by (auto dest: py_len_Inl py_assert_Inl)
  with getitem_Inl[OF this] v show ?thesis by auto
qed


lemma optional_len_Inl:
  assumes "optional_len env nm lvl k b a cur = Inl e"
  shows "(e = AssertionError a \<and> too_long lvl k b) \<or> e = TypeError \<or> e = UnicodeEncodeError"
proof (cases "checked_len env nm lvl k b a")
  case (Inr w)
  with assms show ?thesis by (simp add: optional_len_def)
next
  case (Inl e')
  with assms have "e' = e" "\<forall>k'. e \<noteq> KeyError k'"
    by (cases e'; auto simp: optional_len_def)+
  with checked_len_Inl[OF Inl] show ?thesis by auto
qed

lemma optional_len_assertion:
  assumes "optional_len env nm lvl k b a cur = Inl (AssertionError a')"
  shows "a' = a \<and> too_long lvl k b"
  using optional_len_Inl[OF assms] by auto






section \<open>Extended details and description\<close>

text \<open>
  C4. When \<open>AlarmLevel\<close> accepts a level record that has \<open>extended_details\<close>, the details
  of the level are that value, whatever \<open>details\<close> holds; without the key they are the
  value of \<open>details\<close>. The same holds of \<open>extended_description\<close> and \<open>description\<close>. A
  row of the CSV has ten cells, with the description of the level in its sixth and the
  details in its seventh cell, so that it shows the one value the level kept.
\<close>

theorem extended_fields_replace:
  assumes "AlarmLevel env nm idx lvl = Inr l"
  shows "(\<forall>x. getitem lvl ''extended_details'' = Inr x \<longrightarrow> level_details l = x) \<and>
         (getitem lvl ''extended_details'' = Inl (KeyError ''extended_details'')
            \<longrightarrow> getitem lvl ''details'' = Inr (level_details l)) \<and>
         (\<forall>y. getitem lvl ''extended_description'' = Inr y \<longrightarrow> level_description l = y) \<and>
         (getitem lvl ''extended_description'' = Inl (KeyError ''extended_description'')
            \<longrightarrow> getitem lvl ''description'' = Inr (level_description l)) \<and>
         length (csv_values a l) = 10 \<and>
         csv_values a l ! 5 = level_description l \<and>
         csv_values a l ! 6 = level_details l"
proof -
  from AlarmLevel_Inr[OF assms] obtain details description where
    b: "checked_len env nm lvl ''details'' 256 DetailsLength = Inr details"
       "checked_len env nm lvl ''description'' 256 DescriptionLength = Inr description"
    and x: "optional_len env nm lvl ''extended_details'' 4096 ExtendedDetailsLength details
             = Inr (level_details l)"
       "optional_len env nm lvl ''extended_description'' 4096 ExtendedDescriptionLength description
             = Inr (level_description l)"
    by blast
  from checked_len_Inr[OF b(1)] checked_len_Inr[OF b(2)]
  have base: "getitem lvl ''details'' = Inr details" "getitem lvl ''description'' = Inr description"
    by simp_all
  from optional_len_Inr[OF x(1)] base(1)
  have d: "(\<forall>x. getitem lvl ''extended_details'' = Inr x \<longrightarrow> level_details l = x) \<and>
         (getitem lvl ''extended_details'' = Inl (KeyError ''extended_details'')
            \<longrightarrow> getitem lvl ''details'' = Inr (level_details l))"
    by auto
  from optional_len_Inr[OF x(2)] base(2)
  have ds: "(\<forall>y. getitem lvl ''extended_description'' = Inr y \<longrightarrow> level_description l = y) \<and>
         (getitem lvl ''extended_description'' = Inl (KeyError ''extended_description'')
            \<longrightarrow> getitem lvl ''description'' = Inr (level_description l))"
    by auto
  have "length (csv_values a l) = 10 \<and> csv_values a l ! 5 = level_description l \<and>
         csv_values a l ! 6 = level_details l"
    by (simp add: csv_values_def)
  with d ds show ?thesis by blast
qed

theorem extended_fields_replace_witness:
  "AlarmLevel sample_env (PStr ''process_fail'') (PInt 1000) extended_level = Inr extended_level_obj \<and>
   getitem extended_level ''details'' = Inr (PStr ''The process has failed.'') \<and>
   getitem extended_level ''extended_details''
     = Inr (PStr ''The process has failed and was not restarted.'') \<and>
   level_details extended_level_obj = PStr ''The process has failed and was not restarted.'' \<and>
   getitem extended_level ''extended_description''
     = Inr (PStr ''Process failure without restart'') \<and>
   level_description extended_level_obj = PStr ''Process failure without restart'' \<and>
   csv_values sample_alarm extended_level_obj ! 6
     = PStr ''The process has failed and was not restarted.''"
proof -
  have h: "AlarmLevel sample_env (PStr ''process_fail'') (PInt 1000) extended_level = Inr extended_level_obj"
    by code_simp
  have g: "getitem extended_level ''details'' = Inr (PStr ''The process has failed.'')"
    "getitem extended_level ''extended_details''
       = Inr (PStr ''The process has failed and was not restarted.'')"
    "getitem extended_level ''extended_description''
       = Inr (PStr ''Process failure without restart'')"
    by (simp_all add: extended_level_def)
  from extended_fields_replace[OF h, of sample_alarm] g
  have "level_details extended_level_obj = PStr ''The process has failed and was not restarted.''"
    "level_description extended_level_obj = PStr ''Process failure without restart''"
    "csv_values sample_alarm extended_level_obj ! 6
       = PStr ''The process has failed and was not restarted.''"
    by simp_all
  with h g show ?thesis by simp
qed

section \<open>The length checks\<close>



section \<open>The assertions that the levels can fail\<close>

lemma AlarmLevel_Inl:
  assumes "AlarmLevel env nm idx lvl = Inl (AssertionError a)"
  shows "a \<in> {DetailsLength, DescriptionLength, CauseLength, EffectLength, ActionLength,
              ExtendedDetailsLength, ExtendedDescriptionLength, SeverityInvalid}"
proof -
  from assms[unfolded AlarmLevel_parts ebind_eq_Inl]
  consider k b a' where "checked_len env nm lvl k b a' = Inl (AssertionError a)"
      and "a' \<in> {DetailsLength, DescriptionLength, CauseLength, EffectLength, ActionLength}"
    | k b a' cur where "optional_len env nm lvl k b a' cur = Inl (AssertionError a)"
      and "a' \<in> {ExtendedDetailsLength, ExtendedDescriptionLength}"
    | d ds c e ac where "severity_part env nm idx lvl d ds c e ac = Inl (AssertionError a)"
    by blast
  then show ?thesis
  proof cases
    case 1
    from checked_len_assertion[OF 1(1)] 1(2) show ?thesis by auto
  next
    case 2
    from optional_len_assertion[OF 2(1)] 2(2) show ?thesis by auto
  next
    case 3
    from severity_part_Inl[OF 3] show ?thesis by auto
  qed
qed

lemma levels_loop_Inl:
  assumes "levels_loop env nm idx lvls st = Inl (AssertionError a)"
  shows "a \<in> {DetailsLength, DescriptionLength, CauseLength, EffectLength, ActionLength,
              ExtendedDetailsLength, ExtendedDescriptionLength, SeverityInvalid}"
  using assms
proof (induction lvls arbitrary: st)
  case Nil
  then show ?case by simp
next
  case (Cons lvl lvls)
  obtain d fc fnc where st: "st = (d, fc, fnc)" by (cases st) auto
  from Cons.prems[unfolded st] have
    "AlarmLevel env nm idx lvl = Inl (AssertionError a) \<or>
     (\<exists>st'. levels_loop env nm idx lvls st' = Inl (AssertionError a))"
    by (auto simp: ebind_eq_Inl)
  with AlarmLevel_Inl Cons.IH show ?case by blast
qed

section \<open>The cause of an alarm\<close>

text \<open>
  C6. Take an alarm record with a name, an index and a text as cause. If the cause in
  lower case is one of \<open>software_error\<close>, \<open>database_inconsistency\<close> and
  \<open>underlying_resource_unavailable\<close>, the assertion about the cause holds and nothing
  that follows fails on it. If it is none of them, \<open>Alarm\<close> fails there, whatever the
  levels are: with the \<open>AssertionError\<close> of the cause when the cause is ASCII and the
  name has a \<open>str\<close>, so that both can be written into the message, and with
  \<open>UnicodeEncodeError\<close> otherwise. So for such a cause and name, \<open>Alarm\<close> fails on the
  assertion about the cause exactly when the cause in lower case is none of the three.
\<close>

theorem cause_validation:
  assumes "getitem r ''name'' = Inr n" and "getitem r ''index'' = Inr idx"
    and "getitem r ''cause'' = Inr (PStr c)"
  shows "(map lower_char c \<in> {''software_error'', ''database_inconsistency'',
                               ''underlying_resource_unavailable''} \<longrightarrow>
            Alarm env r \<noteq> Inl (AssertionError CauseInvalid)) \<and>
         (map lower_char c \<notin> {''software_error'', ''database_inconsistency'',
                               ''underlying_resource_unavailable''} \<longrightarrow>
            Alarm env r =
              (if is_ascii c \<and> (\<exists>ns. py_str env n = Inr ns)
               then Inl (AssertionError CauseInvalid) else Inl UnicodeEncodeError)) \<and>
         (is_ascii c \<and> (\<exists>ns. py_str env n = Inr ns) \<longrightarrow>
            (Alarm env r = Inl (AssertionError CauseInvalid) \<longleftrightarrow>
               map lower_char c \<notin> {''software_error'', ''database_inconsistency'',
                                     ''underlying_resource_unavailable''}))"
proof -
  let ?V = "{''software_error'', ''database_inconsistency'', ''underlying_resource_unavailable''}"
  let ?rest = "ebind (getitem r ''levels'') (\<lambda>levels_value.
     ebind (py_iter levels_value) (\<lambda>levels.
     ebind (levels_loop env n idx levels ([], False, False)) (\<lambda>st.
     case st of (levels_dict, found_cleared, found_non_cleared) \<Rightarrow>
       ebind (py_assert env found_cleared [n] MissingCleared) (\<lambda>_.
       ebind (py_assert env found_non_cleared [n] MissingNonCleared) (\<lambda>_.
       Inr \<lparr>alarm_name = n,
            alarm_index = idx,
            alarm_cause = PStr c,
            alarm_levels = levels_dict\<rparr>)))))"
  have set: "set valid_causes = ?V"
    by (simp add: valid_causes_def)
  have A: "Alarm env r =
      (if map lower_char c \<in> set valid_causes then ?rest
       else raise_assertion env [PStr c, n] CauseInvalid)"
    unfolding Alarm_def by (simp add: assms py_assert_def)
  have enc: "(\<exists>s. py_str env (PStr c) = Inr s) \<longleftrightarrow> is_ascii c"
    by (simp add: encode_ascii_def)
  have rest: "?rest \<noteq> Inl (AssertionError CauseInvalid)"
  proof
    assume "?rest = Inl (AssertionError CauseInvalid)"
    then consider "getitem r ''levels'' = Inl (AssertionError CauseInvalid)"
      | lv where "py_iter lv = Inl (AssertionError CauseInvalid)"
      | lvls where "levels_loop env n idx lvls ([], False, False)
                      = Inl (AssertionError CauseInvalid)"
      | st where "(case st of (levels_dict, found_cleared, found_non_cleared) \<Rightarrow>
         ebind (py_assert env found_cleared [n] MissingCleared) (\<lambda>_.
         ebind (py_assert env found_non_cleared [n] MissingNonCleared) (\<lambda>_.
         Inr \<lparr>alarm_name = n,
              alarm_index = idx,
              alarm_cause = PStr c,
              alarm_levels = levels_dict\<rparr>))) = Inl (AssertionError CauseInvalid)"
      unfolding ebind_eq_Inl by blast
    then show False
    proof cases
      case 1
      from getitem_Inl[OF this] show False by auto
    next
      case 2
      from py_iter_Inl[OF this] show False by auto
    next
      case 3
      from levels_loop_Inl[OF this] show False by auto
    next
      case 4
      obtain d fc fnc where st: "st = (d, fc, fnc)" by (cases st) auto
      from 4[unfolded st] show False
        by (auto simp: ebind_eq_Inl dest: py_assert_Inl)
    qed
  qed
  have 1: "map lower_char c \<in> ?V \<longrightarrow> Alarm env r \<noteq> Inl (AssertionError CauseInvalid)"
    unfolding A set[symmetric] using rest by simp
  have 2: "map lower_char c \<notin> ?V \<longrightarrow>
            Alarm env r =
              (if is_ascii c \<and> (\<exists>ns. py_str env n = Inr ns)
               then Inl (AssertionError CauseInvalid) else Inl UnicodeEncodeError)"
    unfolding A set[symmetric] raise_assertion_two enc by simp
  from 1 2 show ?thesis by auto
qed

text \<open>
  \<open>Software_Error\<close> and \<open>software_error\<close> pass the check of the cause, and the record is
  accepted; \<open>hardware_error\<close> fails it.
\<close>

theorem cause_validation_witness:
  "map lower_char ''Software_Error'' = ''software_error'' \<and>
   is_ascii ''hardware_error'' \<and>
   py_str sample_env (PStr ''process_fail'') = Inr ''process_fail'' \<and>
   Alarm sample_env (record_with_cause ''Software_Error'') \<noteq> Inl (AssertionError CauseInvalid) \<and>
   \<not> isl (Alarm sample_env (record_with_cause ''Software_Error'')) \<and>
   Alarm sample_env (record_with_cause ''software_error'') \<noteq> Inl (AssertionError CauseInvalid) \<and>
   \<not> isl (Alarm sample_env (record_with_cause ''software_error'')) \<and>
   Alarm sample_env (record_with_cause ''hardware_error'') = Inl (AssertionError CauseInvalid)"
proof -
  have g: "getitem (record_with_cause c) ''name'' = Inr (PStr ''process_fail'')"
    "getitem (record_with_cause c) ''index'' = Inr (PInt 1000)"
    "getitem (record_with_cause c) ''cause'' = Inr (PStr c)" for c
    by (simp_all add: record_with_cause_def)
  note t = cause_validation[OF g, where env = sample_env]
  have l: "map lower_char ''Software_Error'' = ''software_error''"
    "map lower_char ''software_error'' = ''software_error''"
    "map lower_char ''hardware_error'' = ''hardware_error''"
    by code_simp+
  have a: "is_ascii ''hardware_error''"
    by code_simp
  have p: "py_str sample_env (PStr ''process_fail'') = Inr ''process_fail''"
    by code_simp
  have ok: "\<not> isl (Alarm sample_env (record_with_cause ''Software_Error''))"
    "\<not> isl (Alarm sample_env (record_with_cause ''software_error''))"
    by code_simp+
  have 1: "Alarm sample_env (record_with_cause ''Software_Error'')
      \<noteq> Inl (AssertionError CauseInvalid)"
    using t[of "''Software_Error''"] l by simp
  have 2: "Alarm sample_env (record_with_cause ''software_error'')
      \<noteq> Inl (AssertionError CauseInvalid)"
    using t[of "''software_error''"] l by simp
  have 3: "Alarm sample_env (record_with_cause ''hardware_error'')
      = Inl (AssertionError CauseInvalid)"
    using t[of "''hardware_error''"] l a p by simp
  from l(1) a p 1 2 3 ok show ?thesis by simp
qed

section \<open>Loading a document\<close>

lemma alarm_list_loop_all:
  assumes "list_all2 (\<lambda>r a. Alarm env r = Inr a) recs alarms"
  shows "alarm_list_loop env recs acc = Inr (acc @ alarms)"
  using assms
  by (induction recs alarms arbitrary: acc rule: list_all2_induct) simp_all

lemma alarm_list_loop_first_failure:
  assumes "list_all2 (\<lambda>r a. Alarm env r = Inr a) good oks" and "Alarm env bad = Inl e"
  shows "alarm_list_loop env (good @ bad # rest) acc = Inl e"
  using assms
  by (induction good oks arbitrary: acc rule: list_all2_induct) simp_all

text \<open>
  C7. A document without the key \<open>alarms\<close> makes \<open>parse_alarms_file\<close> fail with the
  \<open>KeyError\<close> of that key, whatever else it holds. When the key holds a list of records,
  the result is the list of their alarms in the order of the records if \<open>Alarm\<close> accepts
  them all, and otherwise the failure of the first record that \<open>Alarm\<close> rejects, with
  nothing of the alarms made before it.
\<close>

theorem load_all_or_first_failure:
  "(map_of kvs ''alarms'' = None \<longrightarrow>
      parse_alarms_file env (PDict kvs) = Inl (KeyError ''alarms'')) \<and>
   (map_of kvs ''alarms'' = Some (PList recs) \<longrightarrow>
      (list_all2 (\<lambda>r a. Alarm env r = Inr a) recs alarms \<longrightarrow>
         parse_alarms_file env (PDict kvs) = Inr alarms) \<and>
      (recs = good @ bad # rest \<and> list_all2 (\<lambda>r a. Alarm env r = Inr a) good oks \<and>
       Alarm env bad = Inl e \<longrightarrow>
         parse_alarms_file env (PDict kvs) = Inl e))"
proof (intro conjI impI)
  assume "map_of kvs ''alarms'' = None"
  then show "parse_alarms_file env (PDict kvs) = Inl (KeyError ''alarms'')"
    by (simp add: parse_alarms_file_def)
next
  assume k: "map_of kvs ''alarms'' = Some (PList recs)"
    and v: "list_all2 (\<lambda>r a. Alarm env r = Inr a) recs alarms"
  from alarm_list_loop_all[OF v, of "[]"] k
  show "parse_alarms_file env (PDict kvs) = Inr alarms"
    by (simp add: parse_alarms_file_def)
next
  assume k: "map_of kvs ''alarms'' = Some (PList recs)"
    and f: "recs = good @ bad # rest \<and> list_all2 (\<lambda>r a. Alarm env r = Inr a) good oks \<and>
       Alarm env bad = Inl e"
  from f alarm_list_loop_first_failure[of env good oks bad e rest "[]"] k
  show "parse_alarms_file env (PDict kvs) = Inl e"
    by (simp add: parse_alarms_file_def)
qed

text \<open>
  A document without the key; one with two valid records; one whose second record has
  an invalid cause and whose third is no record at all.
\<close>

theorem load_all_or_first_failure_witness:
  "parse_alarms_file sample_env (PDict []) = Inl (KeyError ''alarms'') \<and>
   list_all2 (\<lambda>r a. Alarm sample_env r = Inr a)
     [sample_record, two_cleared_record] [sample_alarm, two_cleared_alarm] \<and>
   parse_alarms_file sample_env (PDict [(''alarms'', PList [sample_record, two_cleared_record])])
     = Inr [sample_alarm, two_cleared_alarm] \<and>
   Alarm sample_env (record_with_cause ''hardware_error'') = Inl (AssertionError CauseInvalid) \<and>
   parse_alarms_file sample_env
     (PDict [(''alarms'',
        PList [sample_record, record_with_cause ''hardware_error'', PStr ''not a record''])])
     = Inl (AssertionError CauseInvalid)"
proof -
  have v: "list_all2 (\<lambda>r a. Alarm sample_env r = Inr a)
     [sample_record, two_cleared_record] [sample_alarm, two_cleared_alarm]"
    by code_simp
  have g: "list_all2 (\<lambda>r a. Alarm sample_env r = Inr a) [sample_record] [sample_alarm]"
    by code_simp
  have b: "Alarm sample_env (record_with_cause ''hardware_error'') = Inl (AssertionError CauseInvalid)"
    by code_simp
  have 1: "parse_alarms_file sample_env (PDict []) = Inl (KeyError ''alarms'')"
    using load_all_or_first_failure[of "[]" sample_env] by simp
  have 2: "parse_alarms_file sample_env
      (PDict [(''alarms'', PList [sample_record, two_cleared_record])])
     = Inr [sample_alarm, two_cleared_alarm]"
    using load_all_or_first_failure[of "[(''alarms'', PList [sample_record, two_cleared_record])]"
        sample_env "[sample_record, two_cleared_record]" "[sample_alarm, two_cleared_alarm]"] v
    by simp
  have 3: "parse_alarms_file sample_env
     (PDict [(''alarms'',
        PList [sample_record, record_with_cause ''hardware_error'', PStr ''not a record''])])
     = Inl (AssertionError CauseInvalid)"
    using load_all_or_first_failure[of
        "[(''alarms'',
           PList [sample_record, record_with_cause ''hardware_error'', PStr ''not a record''])]"
        sample_env
        "[sample_record, record_with_cause ''hardware_error'', PStr ''not a record'']"
        _ "[sample_record]" "record_with_cause ''hardware_error''" "[PStr ''not a record'']"
        "[sample_alarm]" "AssertionError CauseInvalid"] g b
    by simp
  from 1 v 2 b 3 show ?thesis by simp
qed

section \<open>The levels of a validated alarm\<close>

lemma levels_loop_Inr_objs:
  assumes "levels_loop env nm idx lvls st = Inr st'"
  shows "\<exists>objs. list_all2 (\<lambda>lvl l. AlarmLevel env nm idx lvl = Inr l) lvls objs"
  using assms
proof (induction lvls arbitrary: st)
  case Nil
  then show ?case by simp
next
  case (Cons lvl lvls)
  obtain d fc fnc where st: "st = (d, fc, fnc)" by (cases st) auto
  from Cons.prems[unfolded st] obtain l st2 where
    l: "AlarmLevel env nm idx lvl = Inr l" and "levels_loop env nm idx lvls st2 = Inr st'"
    by (auto elim!: ebindE)
  from Cons.IH[OF this(2)] obtain objs where
    "list_all2 (\<lambda>lvl l. AlarmLevel env nm idx lvl = Inr l) lvls objs" by blast
  with l have "list_all2 (\<lambda>lvl l. AlarmLevel env nm idx lvl = Inr l) (lvl # lvls) (l # objs)"
    by simp
  then show ?case by blast
qed

lemma Alarm_Inr_objs:
  assumes "Alarm env r = Inr a"
  shows "\<exists>lv lvls objs.
           getitem r ''levels'' = Inr lv \<and> py_iter lv = Inr lvls \<and>
           list_all2 (\<lambda>lvl l. AlarmLevel env (alarm_name a) (alarm_index a) lvl = Inr l) lvls objs \<and>
           alarm_levels a = store_levels objs \<and>
           (\<exists>l\<in>set objs. level_itu_severity l = CLEARED env) \<and>
           (\<exists>l\<in>set objs. level_itu_severity l \<noteq> CLEARED env)"
proof -
  from Alarm_Inr[OF assms] obtain lv lvls where
    g: "getitem r ''levels'' = Inr lv" "py_iter lv = Inr lvls"
    and loop: "levels_loop env (alarm_name a) (alarm_index a) lvls ([], False, False)
             = Inr (alarm_levels a, True, True)"
    by blast
  from levels_loop_Inr_objs[OF loop] obtain objs where
    v: "list_all2 (\<lambda>lvl l. AlarmLevel env (alarm_name a) (alarm_index a) lvl = Inr l) lvls objs" by blast
  from levels_loop_all_valid[OF v, of "[]" False False] loop
  have "alarm_levels a = store_levels objs"
    "\<exists>l\<in>set objs. level_itu_severity l = CLEARED env"
    "\<exists>l\<in>set objs. level_itu_severity l \<noteq> CLEARED env"
    by (simp_all add: store_levels_def)
  with g v show ?thesis by blast
qed

lemma store_levels_keys:
  "distinct (map fst (store_levels objs))"
  "fst ` set (store_levels objs) = level_itu_severity ` set objs"
  "(k, l) \<in> set (store_levels objs) \<Longrightarrow> l \<in> set objs \<and> k = level_itu_severity l"
proof -
  show "distinct (map fst (store_levels objs))"
    unfolding store_levels_def by (rule distinct_fold_update) simp
  show "fst ` set (store_levels objs) = level_itu_severity ` set objs"
    unfolding store_levels_def keys_fold_update by simp
  show "(k, l) \<in> set (store_levels objs) \<Longrightarrow> l \<in> set objs \<and> k = level_itu_severity l"
    unfolding store_levels_def using entries_fold_update[of k l level_itu_severity objs "[]"]
    by simp
qed

lemma store_levels_values:
  "level_itu_severity ` snd ` set (store_levels objs) = fst ` set (store_levels objs)"
  using store_levels_keys(3)[of _ _ objs] by force

lemma join_comma_Cons: "join_comma (x # xs) = x @ concat (map (\<lambda>y. '', '' @ y) xs)"
  by (induction xs arbitrary: x) simp_all

lemma upper_char_ascii: "(of_char c :: nat) < 128 \<Longrightarrow> (of_char (upper_char c) :: nat) < 128"
  by (auto simp: upper_char_def Let_def)

lemma is_ascii_upper: "is_ascii s \<Longrightarrow> is_ascii (map upper_char s)"
  by (auto simp: is_ascii_def list_all_iff upper_char_ascii)

section \<open>The constant of an alarm\<close>

text \<open>
  C9. For an alarm that \<open>Alarm\<close> has made and whose name is a text of ASCII characters,
  \<open>render_alarm\<close> returns the name in upper case, \<open> = (\<close>, the \<open>repr\<close> of the index,
  then for every key of the dict of levels a comma, a blank and the \<open>repr\<close> of the key,
  and \<open>)\<close> with a newline. The keys are the ITU codes of the levels of the alarm, each
  once; there is at least one. The dict is iterated in an order of its own, of which
  only this is used: that it gives every key once.
\<close>

theorem constant_line:
  assumes "Alarm env r = Inr a" and "alarm_name a = PStr name" and "is_ascii name"
    and "iteration_ok env"
  shows "\<exists>codes.
           render_alarm env a =
             Inr (map upper_char name @ '' = ('' @ py_repr env (alarm_index a) @
                  concat (map (\<lambda>c. '', '' @ py_repr env (PInt c)) codes) @ '')'' @ [CHR 0x0A]) \<and>
           codes \<noteq> [] \<and> distinct codes \<and>
           set codes = level_itu_severity ` snd ` set (alarm_levels a)"
proof -
  from Alarm_Inr_objs[OF assms(1)] obtain objs where
    lv: "alarm_levels a = store_levels objs" and ex: "\<exists>l\<in>set objs. level_itu_severity l = CLEARED env"
    by blast
  let ?codes = "dict_keys env (alarm_levels a)"
  have d: "distinct (map fst (alarm_levels a))"
    unfolding lv by (rule store_levels_keys)
  with assms(4) have k: "distinct ?codes" "set ?codes = fst ` set (alarm_levels a)"
    unfolding iteration_ok_def dict_keys_def by auto
  have s: "set ?codes = level_itu_severity ` snd ` set (alarm_levels a)"
    using k(2) store_levels_values[of objs] by (simp add: lv)
  from ex have "fst ` set (alarm_levels a) \<noteq> {}"
    unfolding lv store_levels_keys(2) by auto
  with k(2) have ne: "?codes \<noteq> []" by auto
  then obtain c cs where cs: "?codes = c # cs" by (cases ?codes) auto
  have t: "str_tuple env (alarm_index a # map PInt ?codes) =
      ''('' @ py_repr env (alarm_index a) @
        concat (map (\<lambda>c. '', '' @ py_repr env (PInt c)) ?codes) @ '')''"
    unfolding str_tuple_def cs by (simp add: join_comma_Cons comp_def del: py_repr.simps)
  have "render_alarm env a =
      Inr (map upper_char name @ '' = '' @ str_tuple env (alarm_index a # map PInt ?codes)
           @ [CHR 0x0A])"
    unfolding render_alarm_def
    by (simp add: assms(2) encode_ascii_def is_ascii_upper[OF assms(3)] Let_def)
  with t ne k(1) s show ?thesis by (intro exI[of _ ?codes]) simp
qed

text \<open>The sample alarm, with levels of the codes 1, 4 and 3.\<close>

theorem constant_line_witness:
  "Alarm sample_env sample_record = Inr sample_alarm \<and>
   alarm_name sample_alarm = PStr ''process_fail'' \<and>
   is_ascii ''process_fail'' \<and>
   iteration_ok sample_env \<and>
   render_alarm sample_env sample_alarm = Inr (''PROCESS_FAIL = (1000, 1, 4, 3)'' @ [CHR 0x0A]) \<and>
   (\<exists>codes.
      render_alarm sample_env sample_alarm =
        Inr (map upper_char ''process_fail'' @ '' = ('' @
             py_repr sample_env (alarm_index sample_alarm) @
             concat (map (\<lambda>c. '', '' @ py_repr sample_env (PInt c)) codes) @ '')'' @ [CHR 0x0A]) \<and>
      codes \<noteq> [] \<and> distinct codes \<and>
      set codes = level_itu_severity ` snd ` set (alarm_levels sample_alarm))"
proof -
  have h1: "Alarm sample_env sample_record = Inr sample_alarm"
    by code_simp
  have h2: "alarm_name sample_alarm = PStr ''process_fail''"
    by (simp add: sample_alarm_def)
  have h3: "is_ascii ''process_fail''"
    by code_simp
  have h4: "iteration_ok sample_env"
    by (simp add: iteration_ok_def sample_env_def)
  have r: "render_alarm sample_env sample_alarm
      = Inr (''PROCESS_FAIL = (1000, 1, 4, 3)'' @ [CHR 0x0A])"
    by code_simp
  from constant_line[OF h1 h2 h3 h4] h1 h2 h3 h4 r show ?thesis
    by blast
qed

section \<open>Writing the CSV\<close>












text \<open>
  C8. Let every document of the list be loaded by \<open>parse_alarms_file\<close>, and let the row
  encoder of the \<open>csv\<close> module return a text for the header and for every row. Then
  \<open>alarms_to_csv\<close> returns these texts one after the other: first the header of the ten
  columns OID, ITU_severity, name, cause, severity, description, details, cause, effect,
  action, then for every alarm of every document, in their order, one row for every
  level in the alarm's dict. A row holds the OID suffix of the level, its ITU code, the
  name and the cause of the alarm, and the severity of the level as the record wrote
  it, its description, details, cause, effect and action. Every level of the alarm's
  dict gets one row.
\<close>




section \<open>The index of an alarm\<close>

lemma AlarmLevel_other_index:
  assumes "AlarmLevel env nm i lvl = Inr l"
  shows "\<exists>state. \<forall>i'. AlarmLevel env nm i' lvl =
           ebind (py_str env i') (\<lambda>s. Inr (l\<lparr>level_oid := s @ ''.'' @ str_int state\<rparr>))"
proof -
  from AlarmLevel_Inr[OF assms] obtain details description sev state where
    f: "checked_len env nm lvl ''details'' 256 DetailsLength = Inr details"
       "checked_len env nm lvl ''description'' 256 DescriptionLength = Inr description"
       "checked_len env nm lvl ''cause'' 4096 CauseLength = Inr (level_cause l)"
       "checked_len env nm lvl ''effect'' 4096 EffectLength = Inr (level_effect l)"
       "checked_len env nm lvl ''action'' 4096 ActionLength = Inr (level_action l)"
       "optional_len env nm lvl ''extended_details'' 4096 ExtendedDetailsLength details
             = Inr (level_details l)"
       "optional_len env nm lvl ''extended_description'' 4096 ExtendedDescriptionLength description
             = Inr (level_description l)"
    and s: "getitem lvl ''severity'' = Inr (PStr sev)"
       "level_severity_string l = PStr sev"
       "map_of (itu_severities env) (map lower_char sev) = Some (level_itu_severity l)"
       "map_of alarm_model_state (map lower_char sev) = Some state"
    by blast
  have "AlarmLevel env nm i' lvl =
           ebind (py_str env i') (\<lambda>s. Inr (l\<lparr>level_oid := s @ ''.'' @ str_int state\<rparr>))" for i'
  proof -
    have "AlarmLevel env nm i' lvl =
        severity_part env nm i' lvl (level_details l) (level_description l) (level_cause l)
          (level_effect l) (level_action l)"
      unfolding AlarmLevel_parts by (simp add: f)
    also have "\<dots> = ebind (py_str env i') (\<lambda>s.
        Inr \<lparr>level_details = level_details l,
             level_description = level_description l,
             level_cause = level_cause l,
             level_effect = level_effect l,
             level_action = level_action l,
             level_itu_severity = level_itu_severity l,
             level_oid = s @ ''.'' @ str_int state,
             level_severity_string = level_severity_string l\<rparr>)"
      unfolding severity_part_def using map_of_SomeD[OF s(3)]
      by (simp add: s py_assert_def image_iff) force
    also have "\<dots> = ebind (py_str env i') (\<lambda>s. Inr (l\<lparr>level_oid := s @ ''.'' @ str_int state\<rparr>))"
      by (cases l) simp
    finally show ?thesis .
  qed
  then show ?thesis by blast
qed

lemma levels_other_index:
  assumes "list_all2 (\<lambda>lvl l. AlarmLevel env nm i lvl = Inr l) lvls objs"
    and "py_str env i' = Inr s'"
  shows "\<exists>objs'. list_all2 (\<lambda>lvl l. AlarmLevel env nm i' lvl = Inr l) lvls objs' \<and>
           map level_itu_severity objs' = map level_itu_severity objs \<and>
           (\<forall>l\<in>set objs'. \<exists>suffix. level_oid l = s' @ ''.'' @ suffix)"
  using assms(1)
proof (induction lvls objs rule: list_all2_induct)
  case Nil
  then show ?case by simp
next
  case (Cons lvl lvls l objs)
  from Cons.IH obtain objs' where
    o: "list_all2 (\<lambda>lvl l. AlarmLevel env nm i' lvl = Inr l) lvls objs'"
       "map level_itu_severity objs' = map level_itu_severity objs"
       "\<forall>l\<in>set objs'. \<exists>suffix. level_oid l = s' @ ''.'' @ suffix"
    by blast
  from AlarmLevel_other_index[OF Cons.hyps(1)] assms(2) obtain state where
    l': "AlarmLevel env nm i' lvl = Inr (l\<lparr>level_oid := s' @ ''.'' @ str_int state\<rparr>)"
    by auto
  let ?l' = "l\<lparr>level_oid := s' @ ''.'' @ str_int state\<rparr>"
  from o l' have "list_all2 (\<lambda>lvl l. AlarmLevel env nm i' lvl = Inr l) (lvl # lvls) (?l' # objs') \<and>
           map level_itu_severity (?l' # objs') = map level_itu_severity (l # objs) \<and>
           (\<forall>l\<in>set (?l' # objs'). \<exists>suffix. level_oid l = s' @ ''.'' @ suffix)"
    by simp
  then show ?case by blast
qed

lemma keys_fold_update_cong:
  assumes "map f objs = map f objs'" and "map fst d = map fst d'"
  shows "map fst (fold (\<lambda>l. AList.update (f l) l) objs d)
           = map fst (fold (\<lambda>l. AList.update (f l) l) objs' d')"
  using assms
proof (induction objs arbitrary: objs' d d')
  case Nil
  then show ?case by simp
next
  case (Cons x objs)
  from Cons.prems(1) obtain y ys where y: "objs' = y # ys" "f x = f y" "map f objs = map f ys"
    by (cases objs') auto
  from Cons.prems(2) y(2)
  have "map fst (AList.update (f x) x d) = map fst (AList.update (f y) y d')"
    by (simp add: update_keys)
  from Cons.IH[OF y(3) this] y(1) show ?case by simp
qed

lemma Alarm_levels_fail:
  assumes "getitem r ''name'' = Inr n" and "getitem r ''index'' = Inr idx"
    and "getitem r ''cause'' = Inr c" and "lower c = Inr cl" and "cl \<in> set valid_causes"
    and "getitem r ''levels'' = Inr lv" and "py_iter lv = Inr lvls"
    and "levels_loop env n idx lvls ([], False, False) = Inl e"
  shows "Alarm env r = Inl e"
  unfolding Alarm_def by (simp add: assms)

text \<open>
  C10, as the claim states it, fails: a record that is valid but for its index, the text
  \<open>caf\<close> with an e with acute accent, is rejected. \<open>str\<close> of the index, which
  \<open>AlarmLevel\<close> computes for the OID, raises \<open>UnicodeEncodeError\<close>.
\<close>

theorem index_unchecked_counterexample:
  "Alarm sample_env accent_index_record = Inl UnicodeEncodeError"
  by code_simp

text \<open>
  C10, amended. \<open>Alarm\<close> does not check the index; \<open>AlarmLevel\<close> applies \<open>str\<close> to it. Take
  a record that \<open>Alarm\<close> accepts and put another index in it. If \<open>str\<close> of the new index
  returns a text, as for every integer, the record is accepted again, with the same
  name and cause and the same severities, the new index kept as it is and every OID
  starting with that text and a period. If \<open>str\<close> of the new index raises, \<open>Alarm\<close>
  raises the same.
\<close>

theorem index_unchecked:
  assumes "Alarm env (PDict kvs) = Inr a"
  shows "(\<forall>s'. py_str env i' = Inr s' \<longrightarrow>
            (\<exists>a'. Alarm env (PDict ((''index'', i') # kvs)) = Inr a' \<and>
                  alarm_index a' = i' \<and> alarm_name a' = alarm_name a \<and>
                  alarm_cause a' = alarm_cause a \<and>
                  map fst (alarm_levels a') = map fst (alarm_levels a) \<and>
                  (\<forall>kl\<in>set (alarm_levels a').
                     \<exists>suffix. level_oid (snd kl) = s' @ ''.'' @ suffix))) \<and>
         (\<forall>e. py_str env i' = Inl e \<longrightarrow> Alarm env (PDict ((''index'', i') # kvs)) = Inl e) \<and>
         py_str env (PInt n) = Inr (str_int n)"
proof -
  let ?r' = "PDict ((''index'', i') # kvs)"
  from Alarm_Inr[OF assms] obtain ct where
    h: "getitem (PDict kvs) ''name'' = Inr (alarm_name a)"
       "getitem (PDict kvs) ''cause'' = Inr (alarm_cause a)"
       "alarm_cause a = PStr ct" "map lower_char ct \<in> set valid_causes"
    by blast
  from Alarm_Inr_objs[OF assms] obtain lv lvls objs where
    g: "getitem (PDict kvs) ''levels'' = Inr lv" "py_iter lv = Inr lvls"
    and v: "list_all2 (\<lambda>lvl l. AlarmLevel env (alarm_name a) (alarm_index a) lvl = Inr l) lvls objs"
    and lv: "alarm_levels a = store_levels objs"
    and ex: "\<exists>l\<in>set objs. level_itu_severity l = CLEARED env"
            "\<exists>l\<in>set objs. level_itu_severity l \<noteq> CLEARED env"
    by blast
  have h': "getitem ?r' ''name'' = Inr (alarm_name a)" "getitem ?r' ''index'' = Inr i'"
    "getitem ?r' ''cause'' = Inr (alarm_cause a)" "lower (alarm_cause a) = Inr (map lower_char ct)"
    "getitem ?r' ''levels'' = Inr lv"
    using h g(1) by simp_all
  have ok: "\<exists>a'. Alarm env ?r' = Inr a' \<and>
                  alarm_index a' = i' \<and> alarm_name a' = alarm_name a \<and>
                  alarm_cause a' = alarm_cause a \<and>
                  map fst (alarm_levels a') = map fst (alarm_levels a) \<and>
                  (\<forall>kl\<in>set (alarm_levels a').
                     \<exists>suffix. level_oid (snd kl) = s' @ ''.'' @ suffix)"
    if s': "py_str env i' = Inr s'" for s'
  proof -
    from levels_other_index[OF v s'] obtain objs' where
      o: "list_all2 (\<lambda>lvl l. AlarmLevel env (alarm_name a) i' lvl = Inr l) lvls objs'"
         "map level_itu_severity objs' = map level_itu_severity objs"
         "\<forall>l\<in>set objs'. \<exists>suffix. level_oid l = s' @ ''.'' @ suffix"
      by blast
    from o(2) have "level_itu_severity ` set objs' = level_itu_severity ` set objs"
      by (metis set_map)
    with ex have ex': "\<exists>l\<in>set objs'. level_itu_severity l = CLEARED env"
            "\<exists>l\<in>set objs'. level_itu_severity l \<noteq> CLEARED env"
      by (metis (mono_tags, lifting) image_iff)+
    let ?a' = "\<lparr>alarm_name = alarm_name a, alarm_index = i', alarm_cause = alarm_cause a,
                 alarm_levels = store_levels objs'\<rparr>"
    from Alarm_all_valid[OF h'(1-4) h(4) h'(5) g(2) o(1)] ex'
    have A: "Alarm env ?r' = Inr ?a'" by simp
    have k: "map fst (store_levels objs') = map fst (store_levels objs)"
      unfolding store_levels_def by (rule keys_fold_update_cong[OF o(2)]) simp
    have oid: "\<exists>suffix. level_oid (snd kl) = s' @ ''.'' @ suffix"
      if "kl \<in> set (store_levels objs')" for kl
    proof -
      from that have "(fst kl, snd kl) \<in> set (store_levels objs')" by simp
      from store_levels_keys(3)[OF this] o(3) show ?thesis by blast
    qed
    from A k oid lv show ?thesis by auto
  qed
  have bad: "Alarm env ?r' = Inl e" if e: "py_str env i' = Inl e" for e
  proof -
    from ex(1) v obtain lvl rest where lvls: "lvls = lvl # rest"
      by (cases lvls) auto
    with v obtain l where "AlarmLevel env (alarm_name a) (alarm_index a) lvl = Inr l"
      by (auto simp: list_all2_Cons1)
    from AlarmLevel_other_index[OF this] e have "AlarmLevel env (alarm_name a) i' lvl = Inl e"
      by auto
    then have "levels_loop env (alarm_name a) i' lvls ([], False, False) = Inl e"
      by (simp add: lvls)
    from Alarm_levels_fail[OF h'(1-4) h(4) h'(5) g(2) this] show ?thesis .
  qed
  from ok bad show ?thesis by simp
qed

text \<open>
  The sample record with the index -5, and with the text \<open>caf\<close> and an e with acute
  accent as index.
\<close>

theorem index_unchecked_witness:
  "Alarm sample_env (PDict sample_fields) = Inr sample_alarm \<and>
   py_str sample_env (PInt (- 5)) = Inr ''-5'' \<and>
   (\<exists>a'. Alarm sample_env (PDict ((''index'', PInt (- 5)) # sample_fields)) = Inr a' \<and>
         alarm_index a' = PInt (- 5) \<and>
         map fst (alarm_levels a') = [1, 4, 3] \<and>
         (\<forall>kl\<in>set (alarm_levels a'). \<exists>suffix. level_oid (snd kl) = ''-5'' @ ''.'' @ suffix)) \<and>
   py_str sample_env (PStr [CHR ''c'', CHR ''a'', CHR ''f'', CHR 0xE9]) = Inl UnicodeEncodeError \<and>
   Alarm sample_env
     (PDict ((''index'', PStr [CHR ''c'', CHR ''a'', CHR ''f'', CHR 0xE9]) # sample_fields))
     = Inl UnicodeEncodeError"
proof -
  have h: "Alarm sample_env (PDict sample_fields) = Inr sample_alarm"
    by code_simp
  have s1: "py_str sample_env (PInt (- 5)) = Inr ''-5''"
    by code_simp
  have s2: "py_str sample_env (PStr [CHR ''c'', CHR ''a'', CHR ''f'', CHR 0xE9])
      = Inl UnicodeEncodeError"
    by code_simp
  have k: "map fst (alarm_levels sample_alarm) = [1, 4, 3]"
    by (simp add: sample_alarm_def)
  from index_unchecked[OF h, of "PInt (- 5)"] s1 k
  have 1: "\<exists>a'. Alarm sample_env (PDict ((''index'', PInt (- 5)) # sample_fields)) = Inr a' \<and>
         alarm_index a' = PInt (- 5) \<and>
         map fst (alarm_levels a') = [1, 4, 3] \<and>
         (\<forall>kl\<in>set (alarm_levels a'). \<exists>suffix. level_oid (snd kl) = ''-5'' @ ''.'' @ suffix)"
    by auto
  from index_unchecked[OF h, of "PStr [CHR ''c'', CHR ''a'', CHR ''f'', CHR 0xE9]"] s2
  have 2: "Alarm sample_env
     (PDict ((''index'', PStr [CHR ''c'', CHR ''a'', CHR ''f'', CHR 0xE9]) # sample_fields))
     = Inl UnicodeEncodeError"
    by blast
  from h s1 1 s2 2 show ?thesis by blast
qed

end
